theory Spec2Isabelle
  imports Complex_Main "HOL-Library.Product_Lexorder"
begin

section \<open>Token estimate and the unary response (request-executor.js)\<close>

text \<open>
  A JavaScript string is a sequence of UTF-16 code units. Where the code looks at single
  code units (the CJK range test of \<open>_estimateTokens\<close>, the stream parser) a string is a
  list of code units, each a natural number below 65536. Where only equality, emptiness
  and concatenation of whole strings matter (message texts, hashes, tokens) it is a
  \<open>string\<close>.
\<close>

type_synonym ustring = "nat list"

definition isChinese :: "nat \<Rightarrow> bool" where
  \<comment> \<open>the character class from U+4E00 to U+9FFF\<close>
  "isChinese c \<longleftrightarrow> 0x4e00 \<le> c \<and> c \<le> 0x9fff"

definition estimateTokens :: "ustring \<Rightarrow> int" where
  \<comment> \<open>\<open>_estimateTokens\<close>: \<open>if (!text) return 0\<close> (the empty string is falsy, as is a
      missing text); then \<open>Math.ceil(chineseChars / 1.5 + otherChars / 4)\<close>. The two
      quotients are taken exactly; both counts are far below \<open>2^53\<close>.\<close>
  "estimateTokens text =
     (if text = [] then 0
      else let chineseChars = length (filter isChinese text);
               otherChars = length text - chineseChars
           in \<lceil>(of_nat chineseChars :: rat) / (3 / 2) + of_nat otherChars / 4\<rceil>)"

record parsed_response =
  thoughts :: "ustring list"
  content :: ustring
  state :: string

record image_data =
  mimeType :: string
  data :: string

datatype part = ThoughtPart ustring | TextPart ustring | InlineData string string

datatype finish_reason = STOP | MAX_TOKENS

record usage_metadata =
  promptTokenCount :: int
  candidatesTokenCount :: int
  totalTokenCount :: int

record response =
  candidate_parts :: "part list"
  finishReason :: finish_reason
  usageMetadata :: usage_metadata
  modelVersion :: string

definition buildResponse ::
  "parsed_response \<Rightarrow> image_data option \<Rightarrow> string \<Rightarrow> bool \<Rightarrow> response" where
  \<comment> \<open>\<open>_buildResponse(parsed, imageData, model, thinkingConfig)\<close>; the last argument is
      the truth value of \<open>thinkingConfig?.includeThoughts\<close>, and \<open>model\<close> is \<open>''''\<close> for a
      missing model. The four fixed safety ratings are left out.\<close>
  "buildResponse parsed imageData model includeThoughts =
     (let parts1 = (if includeThoughts \<and> length (thoughts parsed) > 0
                    then map ThoughtPart (thoughts parsed) else []);
          parts2 = (if content parsed \<noteq> [] then parts1 @ [TextPart (content parsed)]
                    else parts1);
          parts3 = (case imageData of
                      None \<Rightarrow> parts2
                    | Some img \<Rightarrow> parts2 @ [InlineData (mimeType img) (data img)]);
          promptTokens = estimateTokens (content parsed);
          candidateTokens = estimateTokens (content parsed) +
            foldl (\<lambda>sum t. sum + estimateTokens t) 0 (thoughts parsed)
      in \<lparr> candidate_parts = parts3,
           finishReason = (if state parsed = ''SUCCEEDED'' then STOP else MAX_TOKENS),
           usageMetadata = \<lparr> promptTokenCount = promptTokens,
                             candidatesTokenCount = candidateTokens,
                             totalTokenCount = promptTokens + candidateTokens \<rparr>,
           modelVersion = (if model \<noteq> [] then model else ''gemini-2.0-flash-exp'') \<rparr>)"



section \<open>The provider table (models/provider.js, config/index.js)\<close>

datatype provider_status = PActive | PInactive | PCooling | PFailed

text \<open>
  A row of the table \<open>providers\<close>. Timestamps are milliseconds since the epoch. The
  credential columns (\<open>cookies\<close>, \<open>csesidx\<close>) and \<open>name\<close> play no part in scheduling
  and are left out.
\<close>

record provider =
  pid :: nat
  group_id :: "nat option"
  status :: provider_status
  health_score :: int
  current_load :: int
  max_concurrent :: int
  total_requests :: int
  failed_requests :: int
  consecutive_failures :: int
  last_failure_at :: "int option"
  last_success_at :: "int option"
  cooldown_until :: "int option"

record config =
  maxConcurrent :: int
  healthThreshold :: int
  cooldownDuration :: int
  failureThreshold :: int
  sessionTtl :: int
  maxPerUser :: int

definition default_config :: config where
  \<comment> \<open>the values \<open>config/index.js\<close> takes when the environment sets none\<close>
  "default_config = \<lparr> maxConcurrent = 10, healthThreshold = 50, cooldownDuration = 300000,
     failureThreshold = 5, sessionTtl = 3600000, maxPerUser = 100 \<rparr>"

definition findById :: "provider list \<Rightarrow> nat \<Rightarrow> provider option" where
  \<comment> \<open>\<open>SELECT * FROM providers WHERE id = ? LIMIT 1\<close>\<close>
  "findById ps i = find (\<lambda>p. pid p = i) ps"

definition update_rows :: "nat \<Rightarrow> (provider \<Rightarrow> provider) \<Rightarrow> provider list \<Rightarrow> provider list" where
  \<comment> \<open>\<open>BaseModel.update\<close>: \<open>UPDATE providers SET ... WHERE id = ?\<close>\<close>
  "update_rows i f ps = map (\<lambda>r. if pid r = i then f r else r) ps"

definition incrementLoad :: "nat \<Rightarrow> provider list \<Rightarrow> provider list" where
  "incrementLoad i = update_rows i (\<lambda>r. r\<lparr>current_load := current_load r + 1\<rparr>)"

definition decrementLoad :: "nat \<Rightarrow> provider list \<Rightarrow> provider list" where
  \<comment> \<open>\<open>current_load = GREATEST(0, current_load - 1)\<close>\<close>
  "decrementLoad i = update_rows i (\<lambda>r. r\<lparr>current_load := max 0 (current_load r - 1)\<rparr>)"

definition recordSuccess :: "int \<Rightarrow> nat \<Rightarrow> provider list \<Rightarrow> provider list" where
  "recordSuccess now i =
     update_rows i (\<lambda>r. r\<lparr>consecutive_failures := 0, last_success_at := Some now,
       health_score := min 100 (health_score r + 1), total_requests := total_requests r + 1\<rparr>)"

definition recordFailure :: "config \<Rightarrow> int \<Rightarrow> nat \<Rightarrow> provider list \<Rightarrow> bool \<times> provider list" where
  \<comment> \<open>\<open>Provider.recordFailure(id)\<close> with \<open>now\<close> the reading of the clock (\<open>Date.now()\<close>
      and \<open>new Date()\<close> within the one call): the row is read, the new values are computed
      in JavaScript and written back by \<open>update\<close>. The result is \<open>false\<close> when no row has
      the id, and otherwise what \<open>update\<close> returns.\<close>
  "recordFailure cfg now i ps =
     (case findById ps i of
        None \<Rightarrow> (False, ps)
      | Some provider \<Rightarrow>
          (let failures = consecutive_failures provider + 1;
               cooling = (failures \<ge> failureThreshold cfg);
               newStatus1 = (if cooling then PCooling else status provider);
               cooldownUntil = (if cooling then Some (now + cooldownDuration cfg) else None);
               newStatus = (if failures \<ge> failureThreshold cfg * 2 then PFailed else newStatus1)
           in (True,
               update_rows i (\<lambda>r. r\<lparr>
                 consecutive_failures := failures,
                 last_failure_at := Some now,
                 health_score := max 0 (health_score provider - 10),
                 failed_requests := failed_requests provider + 1,
                 total_requests := total_requests provider + 1,
                 status := newStatus,
                 cooldown_until := (case cooldownUntil of None \<Rightarrow> cooldown_until r
                                    | Some c \<Rightarrow> Some c)\<rparr>) ps)))"

definition recoverCoolingProviders :: "int \<Rightarrow> provider list \<Rightarrow> provider list" where
  "recoverCoolingProviders now ps =
     map (\<lambda>r. if status r = PCooling \<and> (case cooldown_until r of None \<Rightarrow> False | Some c \<Rightarrow> c \<le> now)
               then r\<lparr>status := PActive, consecutive_failures := 0, health_score := 50\<rparr>
               else r) ps"

lemma find_update_rows:
  "find (\<lambda>p. pid p = i) ps = Some p \<Longrightarrow> pid (f p) = i \<Longrightarrow>
   find (\<lambda>p. pid p = i) (update_rows i f ps) = Some (f p)"
  by (induction ps) (auto simp: update_rows_def)

text \<open>
  Claim C7. When a failure is recorded for a provider the table holds, the row afterwards
  has \<open>consecutive_failures\<close> one higher, \<open>health_score\<close> lowered by 10 but not below
  0, and \<open>failed_requests\<close> and \<open>total_requests\<close> one higher each. If the new
  \<open>consecutive_failures\<close> reaches \<open>failure_threshold\<close>, \<open>cooldown_until\<close> is
  \<open>now + cooldown_duration\<close> and the status is \<open>cooling\<close>, unless the count also
  reaches twice the threshold: then the status is \<open>failed\<close>.
\<close>

theorem recordFailure_post:
  assumes "findById ps i = Some p"
  shows "\<exists>p'. findById (snd (recordFailure cfg now i ps)) i = Some p'
    \<and> consecutive_failures p' = consecutive_failures p + 1
    \<and> health_score p' = max 0 (health_score p - 10)
    \<and> failed_requests p' = failed_requests p + 1
    \<and> total_requests p' = total_requests p + 1
    \<and> (consecutive_failures p' \<ge> failureThreshold cfg \<longrightarrow>
         cooldown_until p' = Some (now + cooldownDuration cfg)
         \<and> status p' = (if consecutive_failures p' \<ge> 2 * failureThreshold cfg
                         then PFailed else PCooling))
    \<and> (consecutive_failures p' \<ge> 2 * failureThreshold cfg \<longrightarrow> status p' = PFailed)"
proof -
  from assms have f: "find (\<lambda>p. pid p = i) ps = Some p" and pi: "pid p = i"
    by (auto simp: findById_def find_Some_iff)
  show ?thesis
    using assms pi
    by (simp add: recordFailure_def Let_def findById_def find_update_rows [OF f] mult.commute)
qed

definition provider4 :: provider where
  "provider4 = \<lparr> pid = 1, group_id = None, status = PActive, health_score = 100,
     current_load = 0, max_concurrent = 10, total_requests = 20, failed_requests = 4,
     consecutive_failures = 4, last_failure_at = None, last_success_at = None,
     cooldown_until = None \<rparr>"

theorem recordFailure_post_witness:
  "\<exists>p'. findById (snd (recordFailure default_config 1000 1 [provider4])) 1 = Some p'
    \<and> consecutive_failures p' = 5 \<and> health_score p' = 90
    \<and> failed_requests p' = 5 \<and> total_requests p' = 21
    \<and> cooldown_until p' = Some 301000 \<and> status p' = PCooling"
proof -
  have h: "findById [provider4] 1 = Some provider4"
    by (simp add: findById_def provider4_def)
  from recordFailure_post [OF h, of default_config 1000]
  show ?thesis
    by (auto simp: provider4_def default_config_def)
qed

section \<open>The bearer token (gemini-client.js)\<close>

type_synonym bytes = "nat list"

record token_data =
  keyId :: string
  xsrfToken :: string
  expirationTime :: int  \<comment> \<open>\<open>new Date(tokenData.expirationTime).getTime()\<close>, in milliseconds\<close>

record jwt_header =
  alg :: string
  typ_ :: string
  kid :: string

record jwt_payload =
  iss :: string
  aud :: string
  sub :: string
  iat :: int
  exp :: int
  nbf :: int

text \<open>
  Of the Node runtime, \<open>Buffer.from(str)\<close>,
  \<open>crypto.createHmac('sha256', key).update(message).digest()\<close> and \<open>JSON.stringify\<close> on
  the header and on the payload are parameters.
\<close>

record node_lib =
  utf8 :: "string \<Rightarrow> bytes"
  hmac_sha256 :: "bytes \<Rightarrow> string \<Rightarrow> bytes"
  stringify_header :: "jwt_header \<Rightarrow> string"
  stringify_payload :: "jwt_payload \<Rightarrow> string"

text \<open>
  The \<open>base64\<close> encoding of a \<open>Buffer\<close> is modelled in full, since the code builds
  its own base64url on top of it. \<open>node_base64\<close> is \<open>buf.toString('base64')\<close>, the
  encoding of RFC 4648, section 4: three bytes give four six-bit values, each written as
  a character of \<open>std_alphabet\<close>, and a last group of one or two bytes is padded with
  \<open>=\<close>. \<open>node_unbase64\<close> is \<open>Buffer.from(str, 'base64')\<close>: it reads up to the first
  \<open>=\<close>, takes the characters of either alphabet and skips all others.
\<close>

definition std_alphabet :: string where
  "std_alphabet = ''ABCDEFGHIJKLMNOPQRSTUVWXYZabcdefghijklmnopqrstuvwxyz0123456789+/''"

definition url_alphabet :: string where
  "url_alphabet = ''ABCDEFGHIJKLMNOPQRSTUVWXYZabcdefghijklmnopqrstuvwxyz0123456789-_''"

fun sextets :: "bytes \<Rightarrow> nat list" where
  "sextets (a # b # c # rest) =
     [a div 4 mod 64, (a mod 4) * 16 + b div 16 mod 16, (b mod 16) * 4 + c div 64 mod 4, c mod 64]
     @ sextets rest"
| "sextets [a, b] = [a div 4 mod 64, (a mod 4) * 16 + b div 16 mod 16, (b mod 16) * 4]"
| "sextets [a] = [a div 4 mod 64, (a mod 4) * 16]"
| "sextets [] = []"

fun bytes_of_sextets :: "nat list \<Rightarrow> bytes" where
  "bytes_of_sextets (w # x # y # z # rest) =
     [w * 4 + x div 16, (x mod 16) * 16 + y div 4, (y mod 4) * 64 + z] @ bytes_of_sextets rest"
| "bytes_of_sextets [w, x, y] = [w * 4 + x div 16, (x mod 16) * 16 + y div 4]"
| "bytes_of_sextets [w, x] = [w * 4 + x div 16]"
| "bytes_of_sextets [w] = []"
| "bytes_of_sextets [] = []"

fun position :: "'a \<Rightarrow> 'a list \<Rightarrow> nat" where
  "position c [] = 0"
| "position c (x # xs) = (if x = c then 0 else Suc (position c xs))"

definition node_base64 :: "bytes \<Rightarrow> string" where
  "node_base64 bs =
     map (\<lambda>v. std_alphabet ! v) (sextets bs) @ replicate ((3 - length bs mod 3) mod 3) CHR ''=''"

definition node_base64_value :: "char \<Rightarrow> nat option" where
  "node_base64_value c =
     (if c \<in> set std_alphabet then Some (position c std_alphabet)
      else if c = CHR ''-'' then Some 62
      else if c = CHR ''_'' then Some 63
      else None)"

definition node_unbase64 :: "string \<Rightarrow> bytes" where
  "node_unbase64 str =
     bytes_of_sextets (List.map_filter node_base64_value (takeWhile (\<lambda>c. c \<noteq> CHR ''='') str))"

text \<open>The two local functions of \<open>_buildBearerToken\<close> and the token itself.\<close>

definition replace_char :: "char \<Rightarrow> char \<Rightarrow> string \<Rightarrow> string" where
  \<comment> \<open>\<open>str.replace(/a/g, 'b')\<close> for single characters\<close>
  "replace_char a b str = map (\<lambda>c. if c = a then b else c) str"

definition strip_padding :: "string \<Rightarrow> string" where
  \<comment> \<open>\<open>str.replace(/=+$/, '')\<close>\<close>
  "strip_padding str = rev (dropWhile (\<lambda>c. c = CHR ''='') (rev str))"

definition to_base64url :: "string \<Rightarrow> string" where
  "to_base64url b = strip_padding (replace_char CHR ''/'' CHR ''_'' (replace_char CHR ''+'' CHR ''-'' b))"

definition base64urlEncode :: "node_lib \<Rightarrow> string \<Rightarrow> string" where
  "base64urlEncode lib str = to_base64url (node_base64 (utf8 lib str))"

definition base64urlDecode :: "string \<Rightarrow> bytes" where
  \<comment> \<open>the loop \<open>while (base64.length % 4) base64 += '='\<close> pads to a multiple of four\<close>
  "base64urlDecode str =
     (let b = replace_char CHR ''_'' CHR ''/'' (replace_char CHR ''-'' CHR ''+'' str)
      in node_unbase64 (b @ replicate ((4 - length b mod 4) mod 4) CHR ''=''))"

definition bearerHeader :: "token_data \<Rightarrow> jwt_header" where
  "bearerHeader tokenData = \<lparr> alg = ''HS256'', typ_ = ''JWT'', kid = keyId tokenData \<rparr>"

definition bearerPayload :: "string \<Rightarrow> int \<Rightarrow> token_data \<Rightarrow> jwt_payload" where
  \<comment> \<open>\<open>nowMs\<close> is \<open>Date.now()\<close>; integer division by a positive number is \<open>Math.floor\<close>\<close>
  "bearerPayload csesidx nowMs tokenData =
     (let now = nowMs div 1000;
          expTime = expirationTime tokenData div 1000
      in \<lparr> iss = ''https://business.gemini.google'',
           aud = ''https://biz-discoveryengine.googleapis.com'',
           sub = ''csesidx/'' @ csesidx,
           iat = now,
           exp = now + min 300 (expTime - now),
           nbf = now \<rparr>)"

definition bearerMessage :: "node_lib \<Rightarrow> string \<Rightarrow> int \<Rightarrow> token_data \<Rightarrow> string" where
  "bearerMessage lib csesidx nowMs tokenData =
     base64urlEncode lib (stringify_header lib (bearerHeader tokenData)) @ ''.'' @
     base64urlEncode lib (stringify_payload lib (bearerPayload csesidx nowMs tokenData))"

definition buildBearerToken :: "node_lib \<Rightarrow> string \<Rightarrow> int \<Rightarrow> token_data \<Rightarrow> string" where
  "buildBearerToken lib csesidx nowMs tokenData =
     (let message = bearerMessage lib csesidx nowMs tokenData;
          key = base64urlDecode (xsrfToken tokenData);
          signature = to_base64url (node_base64 (hmac_sha256 lib key message))
      in message @ ''.'' @ signature)"

text \<open>
  What the specification calls base64url, stated without the code's helpers (RFC 4648,
  section 5, unpadded): \<open>base64url\<close> writes the six-bit values of the bytes in
  \<open>url_alphabet\<close>, and \<open>base64url_decode\<close> reads a text over that alphabet back into
  bytes. \<open>is_base64url\<close> holds of the texts over that alphabet.
\<close>

definition base64url :: "bytes \<Rightarrow> string" where
  "base64url bs = map (\<lambda>v. url_alphabet ! v) (sextets bs)"

definition base64url_decode :: "string \<Rightarrow> bytes" where
  "base64url_decode str = bytes_of_sextets (map (\<lambda>c. position c url_alphabet) str)"

definition is_base64url :: "string \<Rightarrow> bool" where
  "is_base64url str \<longleftrightarrow> set str \<subseteq> set url_alphabet"

definition ascii :: "string \<Rightarrow> bytes" where
  "ascii str = map of_char str"

text \<open>
  A library and a refreshed token to run the construction on. The stand-in for the HMAC
  returns the key followed by the first byte of the message.
\<close>

definition toy_lib :: node_lib where
  "toy_lib = \<lparr> utf8 = ascii,
       hmac_sha256 = (\<lambda>key message. key @ take 1 (ascii message)),
       stringify_header = kid,
       stringify_payload = sub \<rparr>"

definition token1 :: token_data where
  "token1 = \<lparr> keyId = ''k1'', xsrfToken = ''-_8'', expirationTime = 1200999 \<rparr>"

text \<open>
  The code's encoder is base64url, and its decoder is the base64url decoder on every text
  over the base64url alphabet; decoding inverts encoding on bytes.
\<close>

lemma sextets_lt: "v \<in> set (sextets bs) \<Longrightarrow> v < 64"
proof (induction bs arbitrary: v rule: sextets.induct)
  case (1 a b c rest)
  have "(a mod 4) * 16 + b div 16 mod 16 < 64" "(b mod 16) * 4 + c div 64 mod 4 < 64"
    by arith+
  with 1 show ?case by auto
next
  case (2 a b)
  have "(a mod 4) * 16 + b div 16 mod 16 < 64" "(b mod 16) * 4 < 64" by arith+
  with 2 show ?case by auto
next
  case (3 a)
  have "(a mod 4) * 16 < 64" by arith
  with 3 show ?case by auto
next
  case 4
  then show ?case by simp
qed

lemma alphabets:
  "length std_alphabet = 64" "length url_alphabet = 64"
  "map (\<lambda>c. if c = CHR ''/'' then CHR ''_'' else c)
       (map (\<lambda>c. if c = CHR ''+'' then CHR ''-'' else c) std_alphabet) = url_alphabet"
  "map (\<lambda>c. if c = CHR ''_'' then CHR ''/'' else c)
       (map (\<lambda>c. if c = CHR ''-'' then CHR ''+'' else c) url_alphabet) = std_alphabet"
  "CHR ''='' \<notin> set url_alphabet" "CHR ''='' \<notin> set std_alphabet"
  by (simp_all add: std_alphabet_def url_alphabet_def)

lemma distinct_alphabets: "distinct std_alphabet" "distinct url_alphabet"
  by (simp_all add: std_alphabet_def url_alphabet_def)

lemma position_nth: "distinct xs \<Longrightarrow> v < length xs \<Longrightarrow> position (xs ! v) xs = v"
proof (induction xs arbitrary: v)
  case Nil
  then show ?case by simp
next
  case (Cons x xs)
  show ?case
  proof (cases v)
    case 0
    then show ?thesis by simp
  next
    case (Suc n)
    with Cons.prems have n: "n < length xs" "distinct xs" "xs ! n \<in> set xs" "x \<notin> set xs"
      by simp_all
    then have "x \<noteq> xs ! n" by metis
    with Suc Cons.IH [OF n(2) n(1)] show ?thesis by simp
  qed
qed

lemma position_lt: "c \<in> set xs \<Longrightarrow> position c xs < length xs"
  by (induction xs) auto

lemma nth_position: "c \<in> set xs \<Longrightarrow> xs ! position c xs = c"
  by (induction xs) auto

lemma dropWhile_pad: "dropWhile (\<lambda>c. c = CHR ''='') (replicate k CHR ''='' @ str)
    = dropWhile (\<lambda>c. c = CHR ''='') str"
  by (induction k) simp_all

lemma takeWhile_pad:
  "CHR ''='' \<notin> set str \<Longrightarrow> takeWhile (\<lambda>c. c \<noteq> CHR ''='') (str @ replicate k CHR ''='') = str"
proof (induction str)
  case Nil
  show ?case by (cases k) simp_all
next
  case (Cons a str)
  then show ?case by auto
qed

lemma strip_padding_pad:
  assumes "CHR ''='' \<notin> set str"
  shows "strip_padding (str @ replicate k CHR ''='') = str"
proof -
  have "dropWhile (\<lambda>c. c = CHR ''='') (rev str) = rev str"
    using assms by (cases "rev str") (auto simp: rev_eq_Cons_iff)
  then show ?thesis
    by (simp add: strip_padding_def dropWhile_pad)
qed

lemma url_of_std:
  assumes "v < 64"
  shows "(\<lambda>c. if c = CHR ''/'' then CHR ''_'' else c)
           ((\<lambda>c. if c = CHR ''+'' then CHR ''-'' else c) (std_alphabet ! v)) = url_alphabet ! v"
proof -
  have "map (\<lambda>c. if c = CHR ''/'' then CHR ''_'' else c)
       (map (\<lambda>c. if c = CHR ''+'' then CHR ''-'' else c) std_alphabet) ! v = url_alphabet ! v"
    by (simp only: alphabets(3))
  with assms show ?thesis by (simp add: alphabets(1))
qed

lemma std_of_url:
  assumes "v < 64"
  shows "(\<lambda>c. if c = CHR ''_'' then CHR ''/'' else c)
           ((\<lambda>c. if c = CHR ''-'' then CHR ''+'' else c) (url_alphabet ! v)) = std_alphabet ! v"
proof -
  have "map (\<lambda>c. if c = CHR ''_'' then CHR ''/'' else c)
       (map (\<lambda>c. if c = CHR ''-'' then CHR ''+'' else c) url_alphabet) ! v = std_alphabet ! v"
    by (simp only: alphabets(4))
  with assms show ?thesis by (simp add: alphabets(2))
qed

lemma to_base64url_node_base64: "to_base64url (node_base64 bs) = base64url bs"
proof -
  let ?r = "\<lambda>c. if c = CHR ''/'' then CHR ''_'' else if c = CHR ''+'' then CHR ''-'' else c"
  have body: "map (\<lambda>c. if c = CHR ''/'' then CHR ''_'' else c)
          (map (\<lambda>c. if c = CHR ''+'' then CHR ''-'' else c)
             (map (\<lambda>v. std_alphabet ! v) (sextets bs))) = base64url bs"
    unfolding base64url_def map_map
    by (rule map_cong [OF refl]) (simp add: url_of_std [OF sextets_lt, simplified] comp_def)
  have "CHR ''='' \<notin> set (base64url bs)"
  proof
    assume "CHR ''='' \<in> set (base64url bs)"
    then obtain v where "v \<in> set (sextets bs)" "url_alphabet ! v = CHR ''=''"
      by (auto simp: base64url_def)
    then have "CHR ''='' \<in> set url_alphabet"
      using sextets_lt [of v bs] nth_mem [of v url_alphabet] by (simp add: alphabets(2))
    then show False by (simp add: alphabets(5))
  qed
  then have "strip_padding (base64url bs @ replicate ((3 - length bs mod 3) mod 3) CHR ''='')
      = base64url bs"
    by (rule strip_padding_pad)
  moreover have "replace_char CHR ''/'' CHR ''_'' (replace_char CHR ''+'' CHR ''-'' (node_base64 bs))
      = base64url bs @ replicate ((3 - length bs mod 3) mod 3) CHR ''=''"
    by (simp only: node_base64_def replace_char_def map_append body map_replicate) simp
  ultimately show ?thesis
    by (simp only: to_base64url_def)
qed

lemma std_of_url_char:
  assumes m: "c \<in> set url_alphabet"
  defines "d \<equiv> (\<lambda>c. if c = CHR ''_'' then CHR ''/'' else c)
           ((\<lambda>c. if c = CHR ''-'' then CHR ''+'' else c) c)"
  shows "d \<in> set std_alphabet" "position d std_alphabet = position c url_alphabet"
    "d \<noteq> CHR ''=''"
proof -
  define v where "v = position c url_alphabet"
  have v: "v < 64" "url_alphabet ! v = c"
    using position_lt [OF m] nth_position [OF m] by (simp_all add: v_def alphabets(2))
  have e: "d = std_alphabet ! v"
    unfolding d_def v(2) [symmetric] by (rule std_of_url [OF v(1)])
  show 1: "d \<in> set std_alphabet"
    unfolding e using v(1) by (simp add: alphabets(1))
  show "position d std_alphabet = position c url_alphabet"
    unfolding e v_def [symmetric] using v(1)
    by (simp add: position_nth distinct_alphabets(1) alphabets(1))
  show "d \<noteq> CHR ''=''"
    using 1 alphabets(6) by metis
qed

lemma node_base64_values:
  assumes "set str \<subseteq> set url_alphabet"
  shows "List.map_filter node_base64_value
           (replace_char CHR ''_'' CHR ''/'' (replace_char CHR ''-'' CHR ''+'' str))
         = map (\<lambda>c. position c url_alphabet) str
       \<and> CHR ''='' \<notin> set (replace_char CHR ''_'' CHR ''/'' (replace_char CHR ''-'' CHR ''+'' str))"
  using assms
proof (induction str)
  case Nil
  show ?case by (simp add: replace_char_def List.map_filter_simps)
next
  case (Cons c str)
  then have m: "c \<in> set url_alphabet" and s: "set str \<subseteq> set url_alphabet" by simp_all
  note ch = std_of_url_char [OF m]
  from ch(1) ch(2) have "node_base64_value ((\<lambda>c. if c = CHR ''_'' then CHR ''/'' else c)
           ((\<lambda>c. if c = CHR ''-'' then CHR ''+'' else c) c)) = Some (position c url_alphabet)"
    by (simp only: node_base64_value_def if_True)
  with Cons.IH [OF s] ch(3) [symmetric] show ?case
    by (simp only: replace_char_def list.map List.map_filter_simps option.case set_simps
        insert_iff de_Morgan_disj simp_thms)
qed

lemma base64urlDecode_base64url_decode:
  assumes "is_base64url str"
  shows "base64urlDecode str = base64url_decode str"
proof -
  from assms have "set str \<subseteq> set url_alphabet" by (simp add: is_base64url_def)
  note v = node_base64_values [OF this]
  show ?thesis
    by (simp only: base64urlDecode_def Let_def node_unbase64_def takeWhile_pad [OF conjunct2 [OF v]]
        conjunct1 [OF v] base64url_decode_def)
qed

text \<open>Padding at the end of the server token is ignored.\<close>

lemma base64urlDecode_padded:
  assumes "is_base64url str"
  shows "base64urlDecode (str @ replicate k CHR ''='') = base64url_decode str"
proof -
  from assms have "set str \<subseteq> set url_alphabet" by (simp add: is_base64url_def)
  note v = node_base64_values [OF this]
  let ?b = "replace_char CHR ''_'' CHR ''/'' (replace_char CHR ''-'' CHR ''+'' str)"
  have r: "replace_char CHR ''_'' CHR ''/'' (replace_char CHR ''-'' CHR ''+'' (str @ replicate k CHR ''=''))
      = ?b @ replicate k CHR ''=''"
    by (simp add: replace_char_def)
  have "takeWhile (\<lambda>c. c \<noteq> CHR ''='') ((?b @ replicate k CHR ''='') @ replicate j CHR ''='') = ?b"
    for j
    using takeWhile_pad [OF conjunct2 [OF v], of "k + j"] by (simp add: replicate_add)
  then show ?thesis
    by (simp only: base64urlDecode_def Let_def node_unbase64_def r conjunct1 [OF v]
        base64url_decode_def)
qed

lemma sextet_arith:
  fixes a b c :: nat
  assumes "a < 256" "b < 256" "c < 256"
  shows "(a div 4 mod 64) * 4 + ((a mod 4) * 16 + b div 16 mod 16) div 16 = a"
    "(((a mod 4) * 16 + b div 16 mod 16) mod 16) * 16 + ((b mod 16) * 4 + c div 64 mod 4) div 4 = b"
    "(((b mod 16) * 4 + c div 64 mod 4) mod 4) * 64 + c mod 64 = c"
    "(((a mod 4) * 16 + b div 16 mod 16) mod 16) * 16 + ((b mod 16) * 4) div 4 = b"
    "(a div 4 mod 64) * 4 + ((a mod 4) * 16) div 16 = a"
proof -
  from assms have l: "a div 4 < 64" "b div 16 < 16" "c div 64 < 4"
    by simp_all
  show "(a div 4 mod 64) * 4 + ((a mod 4) * 16 + b div 16 mod 16) div 16 = a"
    using l by simp
  show "(((a mod 4) * 16 + b div 16 mod 16) mod 16) * 16 + ((b mod 16) * 4 + c div 64 mod 4) div 4 = b"
    using l by simp
  show "(((b mod 16) * 4 + c div 64 mod 4) mod 4) * 64 + c mod 64 = c"
    using l by simp
  show "(((a mod 4) * 16 + b div 16 mod 16) mod 16) * 16 + ((b mod 16) * 4) div 4 = b"
    using l by simp
  show "(a div 4 mod 64) * 4 + ((a mod 4) * 16) div 16 = a"
    using l by simp
qed

lemma bytes_of_sextets_sextets:
  "\<forall>b\<in>set bs. b < 256 \<Longrightarrow> bytes_of_sextets (sextets bs) = bs"
proof (induction bs rule: sextets.induct)
  case (1 a b c rest)
  then have "a < 256" "b < 256" "c < 256" by simp_all
  note sextet_arith(1-3) [OF this]
  with 1 show ?case by simp
next
  case (2 a b)
  then have "a < 256" "b < 256" by simp_all
  note sextet_arith(1,4) [OF this this(2)]
  then show ?case by simp
next
  case (3 a)
  then have "a < 256" by simp
  note sextet_arith(5) [OF this this this]
  then show ?case by simp
next
  case 4
  show ?case by simp
qed

lemma base64url_round_trip:
  assumes "\<forall>b\<in>set bs. b < 256"
  shows "base64url_decode (base64url bs) = bs" "is_base64url (base64url bs)"
proof -
  have "map (\<lambda>c. position c url_alphabet) (map (\<lambda>v. url_alphabet ! v) (sextets bs)) = sextets bs"
    unfolding map_map
    by (rule map_idI) (simp add: position_nth distinct_alphabets(2) alphabets(2) sextets_lt)
  with assms show "base64url_decode (base64url bs) = bs"
    by (simp add: base64url_decode_def base64url_def bytes_of_sextets_sextets)
  show "is_base64url (base64url bs)"
    using sextets_lt [of _ bs] by (auto simp: is_base64url_def base64url_def alphabets(2))
qed

lemma base64_examples:
  "node_base64 (ascii ''f'') = ''Zg==''"
  "node_base64 (ascii ''fo'') = ''Zm8=''"
  "node_base64 (ascii ''foobar'') = ''Zm9vYmFy''"
  "node_base64 [251, 255] = ''+/8=''"
  "to_base64url (node_base64 [251, 255]) = ''-_8''"
  "base64url [251, 255] = ''-_8''"
  "node_unbase64 ''+/8='' = [251, 255]"
  "base64urlDecode ''-_8'' = [251, 255]"
  "base64url_decode ''-_8'' = [251, 255]"
  by code_simp+

text \<open>
  Claim C8. For a server token that is base64url text, the header is
  \<open>{alg: HS256, typ: JWT, kid: keyId}\<close>, the payload has the fixed issuer and audience,
  \<open>sub = csesidx/<id>\<close>, \<open>iat = nbf = now\<close> and \<open>exp = min(now + 300, serverExp)\<close>,
  with \<open>now\<close> the clock and \<open>serverExp\<close> the server's expiration time, both in whole
  epoch seconds. The token is the message \<open>base64url(header).base64url(payload)\<close>
  followed by a dot and the base64url form of the HMAC-SHA-256 of that message under the
  key \<open>base64url_decode(xsrfToken)\<close>.
\<close>

theorem buildBearerToken_spec:
  assumes "is_base64url (xsrfToken tokenData)"
  shows "bearerHeader tokenData = \<lparr> alg = ''HS256'', typ_ = ''JWT'', kid = keyId tokenData \<rparr>
   \<and> bearerPayload csesidx nowMs tokenData
     = \<lparr> iss = ''https://business.gemini.google'',
         aud = ''https://biz-discoveryengine.googleapis.com'',
         sub = ''csesidx/'' @ csesidx,
         iat = nowMs div 1000,
         exp = min (nowMs div 1000 + 300) (expirationTime tokenData div 1000),
         nbf = nowMs div 1000 \<rparr>
   \<and> buildBearerToken lib csesidx nowMs tokenData
     = base64url (utf8 lib (stringify_header lib (bearerHeader tokenData))) @ ''.'' @
       base64url (utf8 lib (stringify_payload lib (bearerPayload csesidx nowMs tokenData))) @ ''.'' @
       base64url (hmac_sha256 lib (base64url_decode (xsrfToken tokenData))
         (base64url (utf8 lib (stringify_header lib (bearerHeader tokenData))) @ ''.'' @
          base64url (utf8 lib (stringify_payload lib (bearerPayload csesidx nowMs tokenData)))))"
proof -
  have "bearerPayload csesidx nowMs tokenData
     = \<lparr> iss = ''https://business.gemini.google'',
         aud = ''https://biz-discoveryengine.googleapis.com'',
         sub = ''csesidx/'' @ csesidx,
         iat = nowMs div 1000,
         exp = min (nowMs div 1000 + 300) (expirationTime tokenData div 1000),
         nbf = nowMs div 1000 \<rparr>"
    by (simp add: bearerPayload_def Let_def min_def)
  moreover have "buildBearerToken lib csesidx nowMs tokenData
     = base64url (utf8 lib (stringify_header lib (bearerHeader tokenData))) @ ''.'' @
       base64url (utf8 lib (stringify_payload lib (bearerPayload csesidx nowMs tokenData))) @ ''.'' @
       base64url (hmac_sha256 lib (base64url_decode (xsrfToken tokenData))
         (base64url (utf8 lib (stringify_header lib (bearerHeader tokenData))) @ ''.'' @
          base64url (utf8 lib (stringify_payload lib (bearerPayload csesidx nowMs tokenData)))))"
    by (simp only: buildBearerToken_def bearerMessage_def base64urlEncode_def Let_def
        to_base64url_node_base64 base64urlDecode_base64url_decode [OF assms] append_assoc)
  ultimately show ?thesis by (simp only: bearerHeader_def simp_thms)
qed

theorem buildBearerToken_spec_witness:
  "is_base64url (xsrfToken token1)
   \<and> exp (bearerPayload ''7'' 1000500 token1) = 1200
   \<and> buildBearerToken toy_lib ''7'' 1000500 token1 = ''azE.Y3Nlc2lkeC83.-_9h''"
proof -
  have h: "is_base64url (xsrfToken token1)"
    by (simp add: token1_def is_base64url_def url_alphabet_def)
  from buildBearerToken_spec [OF h, of "''7''" 1000500 toy_lib] h show ?thesis
    by (simp add: toy_lib_def token1_def ascii_def base64url_def base64url_decode_def
        url_alphabet_def bearerHeader_def)
qed

section \<open>Credential encryption (utils/crypto.js)\<close>

text \<open>
  \<open>CryptoJS.AES\<close> is a parameter: \<open>aes_encrypt key salt text\<close> is
  \<open>CryptoJS.AES.encrypt(text, key).toString()\<close> when the library draws the random
  \<open>salt\<close>, and \<open>aes_decrypt key ciphertext\<close> is
  \<open>CryptoJS.AES.decrypt(ciphertext, key).toString(CryptoJS.enc.Utf8)\<close>, \<open>Inl\<close> when it
  throws.
\<close>

record 'salt aes_lib =
  aes_encrypt :: "string \<Rightarrow> 'salt \<Rightarrow> string \<Rightarrow> string"
  aes_decrypt :: "string \<Rightarrow> string \<Rightarrow> string + string"

definition encrypt :: "'salt aes_lib \<Rightarrow> string \<Rightarrow> 'salt \<Rightarrow> string \<Rightarrow> string" where
  \<comment> \<open>\<open>if (!text) return text\<close>: the empty string is returned as it is\<close>
  "encrypt lib secretKey salt text =
     (if text = [] then text else aes_encrypt lib secretKey salt text)"

definition decrypt :: "'salt aes_lib \<Rightarrow> string \<Rightarrow> string \<Rightarrow> string" where
  \<comment> \<open>the \<open>catch\<close> returns the ciphertext unchanged\<close>
  "decrypt lib secretKey ciphertext =
     (if ciphertext = [] then ciphertext
      else case aes_decrypt lib secretKey ciphertext of
             Inl err \<Rightarrow> ciphertext
           | Inr plain \<Rightarrow> plain)"

definition aes_contract :: "'salt aes_lib \<Rightarrow> string \<Rightarrow> bool" where
  \<comment> \<open>what the wrappers rely on: under one key the library decrypts what it encrypted,
      and a ciphertext is never the empty string\<close>
  "aes_contract lib secretKey \<longleftrightarrow>
     (\<forall>salt text. aes_encrypt lib secretKey salt text \<noteq> []
        \<and> aes_decrypt lib secretKey (aes_encrypt lib secretKey salt text) = Inr text)"

text \<open>
  Claim C9. For every credential string \<open>s\<close>, decrypting the encryption of \<open>s\<close> under
  the same secret key gives \<open>s\<close> back, whatever salt the encryption drew, given that
  the AES library itself decrypts what it encrypted.
\<close>

theorem decrypt_encrypt:
  assumes "aes_contract lib secretKey"
  shows "decrypt lib secretKey (encrypt lib secretKey salt s) = s"
  using assms by (simp add: aes_contract_def decrypt_def encrypt_def)

definition toy_aes :: "unit aes_lib" where
  \<comment> \<open>a stand-in cipher that meets the contract: it prefixes a mark and strips it again\<close>
  "toy_aes = \<lparr> aes_encrypt = (\<lambda>key salt text. CHR ''#'' # text),
               aes_decrypt = (\<lambda>key c. case c of [] \<Rightarrow> Inl ''empty''
                                | x # xs \<Rightarrow> if x = CHR ''#'' then Inr xs else Inl ''malformed'') \<rparr>"

theorem decrypt_encrypt_witness:
  "aes_contract toy_aes ''k'' \<and> decrypt toy_aes ''k'' (encrypt toy_aes ''k'' () ''SID=abc'') = ''SID=abc''"
proof -
  have h: "aes_contract toy_aes ''k''"
    by (simp add: aes_contract_def toy_aes_def)
  from decrypt_encrypt [OF h] show ?thesis
    using h by simp
qed

section \<open>Session fingerprints (utils/hash.js)\<close>

record m_part =
  p_text :: "string option"  \<comment> \<open>\<open>None\<close> for a part with no \<open>text\<close> field, such as inline data\<close>

record message =
  role :: string
  parts :: "m_part list option"  \<comment> \<open>\<open>None\<close> when \<open>parts\<close> is missing or not an array\<close>

fun join :: "string \<Rightarrow> string list \<Rightarrow> string" where
  \<comment> \<open>\<open>Array.prototype.join\<close>\<close>
  "join sep [] = []"
| "join sep [x] = x"
| "join sep (x # y # ys) = x @ sep @ join sep (y # ys)"

definition newline :: string where
  "newline = [CHR 0x0A]"

definition truthy_text :: "m_part \<Rightarrow> bool" where
  \<comment> \<open>\<open>p => p.text\<close> as a filter: a missing and an empty text are both falsy\<close>
  "truthy_text p = (case p_text p of None \<Rightarrow> False | Some t \<Rightarrow> t \<noteq> [])"

definition extractTextFromParts :: "m_part list option \<Rightarrow> string" where
  "extractTextFromParts ps =
     (case ps of
        None \<Rightarrow> []
      | Some ps \<Rightarrow> join newline (map (\<lambda>p. case p_text p of None \<Rightarrow> [] | Some t \<Rightarrow> t)
                                     (filter truthy_text ps)))"

definition headText :: "message list \<Rightarrow> string" where
  "headText userMessages =
     join ''|||'' (map (\<lambda>m. extractTextFromParts (parts m)) (take 5 userMessages))"

definition tailText :: "message list \<Rightarrow> string" where
  \<comment> \<open>\<open>userMessages.slice(-5)\<close>: the last five, or all when there are fewer\<close>
  "tailText userMessages =
     join ''|||'' (map (\<lambda>m. extractTextFromParts (parts m))
                       (drop (length userMessages - 5) userMessages))"

definition generateSessionHashes ::
  "(string \<Rightarrow> string) \<Rightarrow> string \<Rightarrow> message list option \<Rightarrow> string \<times> string" where
  \<comment> \<open>\<open>md5\<close> is Node's MD5 in hexadecimal and \<open>random\<close> the string that \<open>randomString(32)\<close>
      draws; the result is the pair \<open>(headHash, tailHash)\<close>. \<open>None\<close> is a missing
      \<open>messages\<close>.\<close>
  "generateSessionHashes md5 random messages =
     (case messages of
        None \<Rightarrow> (md5 random, md5 random)
      | Some ms \<Rightarrow>
          if length ms = 0 then (md5 random, md5 random)
          else let userMessages = filter (\<lambda>m. role m = ''user'') ms
               in if length userMessages = 0 then (md5 random, md5 random)
                  else (md5 (headText userMessages), md5 (tailText userMessages)))"

definition getLastMessageText :: "message list option \<Rightarrow> string" where
  "getLastMessageText messages =
     (case messages of
        None \<Rightarrow> []
      | Some ms \<Rightarrow> if length ms = 0 then [] else extractTextFromParts (parts (last ms)))"

text \<open>
  The fingerprint texts as the specification words them: the text of a message is the
  newline-join of the text fields of its parts; the second definition keeps only the
  text fields that are not empty.
\<close>

definition text_fields :: "message \<Rightarrow> string list" where
  "text_fields m = (case parts m of None \<Rightarrow> [] | Some ps \<Rightarrow> List.map_filter p_text ps)"

definition spec_message_text :: "message \<Rightarrow> string" where
  "spec_message_text m = join newline (text_fields m)"

definition nonempty_message_text :: "message \<Rightarrow> string" where
  "nonempty_message_text m = join newline (filter (\<lambda>t. t \<noteq> []) (text_fields m))"

definition user_messages :: "message list \<Rightarrow> message list" where
  "user_messages ms = filter (\<lambda>m. role m = ''user'') ms"

lemma extractText_nonempty:
  "extractTextFromParts (parts m) = nonempty_message_text m"
proof (cases "parts m")
  case None
  then show ?thesis
    by (simp add: extractTextFromParts_def nonempty_message_text_def text_fields_def)
next
  case (Some ps)
  have "map (\<lambda>p. case p_text p of None \<Rightarrow> [] | Some t \<Rightarrow> t) (filter truthy_text ps)
        = filter (\<lambda>t. t \<noteq> []) (List.map_filter p_text ps)"
    by (induction ps) (auto simp: truthy_text_def List.map_filter_simps split: option.splits)
  with Some show ?thesis
    by (simp add: extractTextFromParts_def nonempty_message_text_def text_fields_def)
qed

definition msg_a_empty :: message where
  \<comment> \<open>a user message with the parts \<open>[{text: "a"}, {text: ""}]\<close>\<close>
  "msg_a_empty = \<lparr> role = ''user'', parts = Some [\<lparr> p_text = Some ''a'' \<rparr>, \<lparr> p_text = Some [] \<rparr>] \<rparr>"

text \<open>
  Claim C5 as stated fails where a part carries an empty text: the code drops such a
  part before joining. For the single user message whose two parts have the texts \<open>a\<close>
  and the empty string, the head text that is hashed is \<open>a\<close>, whereas the newline-join of
  its two text fields is \<open>a\<close> followed by a newline. The first line shows the text
  that reaches the hash function, with the identity in the place of MD5.
\<close>

theorem headText_counterexample:
  "generateSessionHashes id ''r'' (Some [msg_a_empty]) = (''a'', ''a'')
   \<and> headText (user_messages [msg_a_empty]) = ''a''
   \<and> join ''|||'' (map spec_message_text (take (min 5 1) (user_messages [msg_a_empty])))
       = [CHR ''a'', CHR 0x0A]
   \<and> headText (user_messages [msg_a_empty])
       \<noteq> join ''|||'' (map spec_message_text (take (min 5 1) (user_messages [msg_a_empty])))"
  by (simp add: generateSessionHashes_def headText_def tailText_def user_messages_def
      msg_a_empty_def extractTextFromParts_def truthy_text_def spec_message_text_def
      text_fields_def newline_def List.map_filter_simps)

text \<open>
  Claim C5, amended. For a message list with \<open>n \<ge> 1\<close> user messages, \<open>head_hash\<close> is
  the MD5 of the \<open>|||\<close>-join of the texts of the first \<open>min(5, n)\<close> user messages and
  \<open>tail_hash\<close> that of the last \<open>min(5, n)\<close>, where the text of a message is the
  newline-join of the non-empty text fields of its parts. With exactly five user
  messages the two hashes are equal, and the pair does not depend on the random string:
  it is a function of the messages alone.
\<close>

theorem generateSessionHashes_spec:
  assumes "n = length (user_messages ms)" and "n \<ge> 1"
  shows "generateSessionHashes md5 random (Some ms)
           = (md5 (join ''|||'' (map nonempty_message_text (take (min 5 n) (user_messages ms)))),
              md5 (join ''|||'' (map nonempty_message_text (drop (n - min 5 n) (user_messages ms)))))
         \<and> (n = 5 \<longrightarrow> fst (generateSessionHashes md5 random (Some ms))
                          = snd (generateSessionHashes md5 random (Some ms)))
         \<and> generateSessionHashes md5 random (Some ms) = generateSessionHashes md5 random' (Some ms)"
proof -
  from assms have ne: "ms \<noteq> []" "user_messages ms \<noteq> []"
    by (auto simp: user_messages_def)
  have t: "take 5 (user_messages ms) = take (min 5 n) (user_messages ms)"
    using assms by (simp add: min_def)
  have d: "length (user_messages ms) - 5 = n - min 5 n"
    using assms by (simp add: min_def)
  have eq: "generateSessionHashes md5 r (Some ms)
      = (md5 (join ''|||'' (map nonempty_message_text (take (min 5 n) (user_messages ms)))),
         md5 (join ''|||'' (map nonempty_message_text (drop (n - min 5 n) (user_messages ms)))))" for r
    using ne t d
    by (simp add: generateSessionHashes_def Let_def headText_def tailText_def
        extractText_nonempty user_messages_def [symmetric])
  show ?thesis
    using assms by (simp add: eq)
qed

definition msg_hello :: message where
  "msg_hello = \<lparr> role = ''user'', parts = Some [\<lparr> p_text = Some ''Hello'' \<rparr>] \<rparr>"

theorem generateSessionHashes_spec_witness:
  "generateSessionHashes id ''r'' (Some [msg_hello, msg_hello, msg_hello, msg_hello, msg_hello])
     = (''Hello|||Hello|||Hello|||Hello|||Hello'', ''Hello|||Hello|||Hello|||Hello|||Hello'')"
proof -
  have n: "5 = length (user_messages [msg_hello, msg_hello, msg_hello, msg_hello, msg_hello])"
    by (simp add: user_messages_def msg_hello_def)
  have t: "nonempty_message_text msg_hello = ''Hello''"
    by (simp add: nonempty_message_text_def text_fields_def msg_hello_def List.map_filter_simps)
  from generateSessionHashes_spec [OF n, of id "''r''"]
  show ?thesis
    by (simp add: user_messages_def t) (simp add: msg_hello_def)
qed


section \<open>Session matching (models/session.js)\<close>

datatype session_status = SActive | SExpired | SMigrated

record session =
  sid :: nat
  provider_id :: nat
  user_id :: "nat option"
  context_hash_head :: string
  context_hash_tail :: string
  gemini_session_id :: "string option"
  message_count :: int
  s_status :: session_status
  expires_at :: "int option"
  last_accessed_at :: int

text \<open>
  The two lookups of \<open>findMatchingSession\<close> are SQL queries over the join of
  \<open>sessions\<close> with \<open>providers\<close>: the join, the \<open>WHERE\<close> clause, \<open>ORDER BY
  s.last_accessed_at DESC\<close> (a stable sort: rows of equal time keep the table's order,
  where MySQL promises no order) and \<open>queryOne\<close>, which takes the first row. The
  function returns the session row as read, with the match type, and the table after
  the update. \<open>now\<close> is the clock reading of \<open>new Date()\<close>.
\<close>

datatype match_type = Exact | Head | NoMatch | New

definition join_providers :: "session list \<Rightarrow> provider list \<Rightarrow> (session \<times> provider) list" where
  "join_providers ss ps =
     concat (map (\<lambda>s. map (Pair s) (filter (\<lambda>p. provider_id s = pid p) ps)) ss)"

definition order_by_last_accessed_desc :: "(session \<times> provider) list \<Rightarrow> (session \<times> provider) list" where
  "order_by_last_accessed_desc rows = sort_key (\<lambda>(s, p). - last_accessed_at s) rows"

definition queryOne :: "'a list \<Rightarrow> 'a option" where
  "queryOne rows = (case rows of [] \<Rightarrow> None | r # _ \<Rightarrow> Some r)"

definition exact_where :: "nat \<Rightarrow> string \<Rightarrow> string \<Rightarrow> session \<times> provider \<Rightarrow> bool" where
  "exact_where userId headHash tailHash = (\<lambda>(s, p).
     user_id s = Some userId \<and> context_hash_head s = headHash \<and> context_hash_tail s = tailHash
     \<and> s_status s = SActive \<and> status p = PActive)"

definition head_where :: "nat \<Rightarrow> string \<Rightarrow> session \<times> provider \<Rightarrow> bool" where
  "head_where userId headHash = (\<lambda>(s, p).
     user_id s = Some userId \<and> context_hash_head s = headHash
     \<and> s_status s = SActive \<and> status p = PActive)"

definition update_session :: "nat \<Rightarrow> (session \<Rightarrow> session) \<Rightarrow> session list \<Rightarrow> session list" where
  "update_session i f ss = map (\<lambda>r. if sid r = i then f r else r) ss"

definition findMatchingSession ::
  "int \<Rightarrow> nat \<Rightarrow> string \<Rightarrow> string \<Rightarrow> provider list \<Rightarrow> session list
     \<Rightarrow> (session option \<times> match_type) \<times> session list" where
  "findMatchingSession now userId headHash tailHash ps ss =
     (case queryOne (order_by_last_accessed_desc
                      (filter (exact_where userId headHash tailHash) (join_providers ss ps))) of
        Some (session, p) \<Rightarrow> ((Some session, Exact), ss)
      | None \<Rightarrow>
         (case queryOne (order_by_last_accessed_desc
                          (filter (head_where userId headHash) (join_providers ss ps))) of
            Some (session, p) \<Rightarrow>
              ((Some session, Head),
               update_session (sid session)
                 (\<lambda>r. r\<lparr>context_hash_tail := tailHash, last_accessed_at := now\<rparr>) ss)
          | None \<Rightarrow> ((None, NoMatch), ss)))"

text \<open>
  The lookup order as the specification words it: the matching conditions on a session
  row, and the choice of a matching row accessed latest.
\<close>

definition provider_active :: "provider list \<Rightarrow> session \<Rightarrow> bool" where
  "provider_active ps s \<longleftrightarrow> (\<exists>p \<in> set ps. pid p = provider_id s \<and> status p = PActive)"

definition exact_match :: "nat \<Rightarrow> string \<Rightarrow> string \<Rightarrow> provider list \<Rightarrow> session \<Rightarrow> bool" where
  "exact_match userId headHash tailHash ps s \<longleftrightarrow>
     user_id s = Some userId \<and> context_hash_head s = headHash \<and> context_hash_tail s = tailHash
     \<and> s_status s = SActive \<and> provider_active ps s"

definition head_match :: "nat \<Rightarrow> string \<Rightarrow> provider list \<Rightarrow> session \<Rightarrow> bool" where
  "head_match userId headHash ps s \<longleftrightarrow>
     user_id s = Some userId \<and> context_hash_head s = headHash
     \<and> s_status s = SActive \<and> provider_active ps s"

definition latest_among :: "(session \<Rightarrow> bool) \<Rightarrow> session list \<Rightarrow> session \<Rightarrow> bool" where
  "latest_among M ss s \<longleftrightarrow>
     s \<in> set ss \<and> M s \<and> (\<forall>s' \<in> set ss. M s' \<longrightarrow> last_accessed_at s' \<le> last_accessed_at s)"

lemma set_join_providers:
  "set (join_providers ss ps) = {(s, p). s \<in> set ss \<and> p \<in> set ps \<and> provider_id s = pid p}"
  by (auto simp: join_providers_def)

lemma queryOne_ordered:
  "queryOne (order_by_last_accessed_desc rows) = None \<longleftrightarrow> rows = []"
  "queryOne (order_by_last_accessed_desc rows) = Some (s, p) \<Longrightarrow>
     (s, p) \<in> set rows \<and> (\<forall>(s', p') \<in> set rows. last_accessed_at s' \<le> last_accessed_at s)"
proof -
  let ?f = "\<lambda>(s :: session, p :: provider). - last_accessed_at s"
  show "queryOne (order_by_last_accessed_desc rows) = None \<longleftrightarrow> rows = []"
    by (cases "sort_key ?f rows")
       (auto simp: queryOne_def order_by_last_accessed_desc_def dest: arg_cong [where f = length])
  assume "queryOne (order_by_last_accessed_desc rows) = Some (s, p)"
  then obtain rest where srt: "sort_key ?f rows = (s, p) # rest"
    by (auto simp: queryOne_def order_by_last_accessed_desc_def split: list.splits)
  have "set (sort_key ?f rows) = set rows" by simp
  with srt have mem: "(s, p) \<in> set rows" and sub: "set rows = insert (s, p) (set rest)"
    by auto
  have "sorted (map ?f (sort_key ?f rows))" by (rule sorted_sort_key)
  with srt have "\<forall>r \<in> set rest. ?f (s, p) \<le> ?f r" by auto
  with sub have "\<forall>(s', p') \<in> set rows. last_accessed_at s' \<le> last_accessed_at s"
    by auto
  with mem show "(s, p) \<in> set rows \<and> (\<forall>(s', p') \<in> set rows. last_accessed_at s' \<le> last_accessed_at s)"
    by simp
qed

lemma exact_rows_iff:
  "(s, p) \<in> set (filter (exact_where u h t) (join_providers ss ps)) \<Longrightarrow>
     s \<in> set ss \<and> exact_match u h t ps s"
  "s \<in> set ss \<Longrightarrow> exact_match u h t ps s \<Longrightarrow>
     \<exists>p. (s, p) \<in> set (filter (exact_where u h t) (join_providers ss ps))"
  by (auto simp: set_join_providers exact_where_def exact_match_def provider_active_def)

lemma head_rows_iff:
  "(s, p) \<in> set (filter (head_where u h) (join_providers ss ps)) \<Longrightarrow>
     s \<in> set ss \<and> head_match u h ps s"
  "s \<in> set ss \<Longrightarrow> head_match u h ps s \<Longrightarrow>
     \<exists>p. (s, p) \<in> set (filter (head_where u h) (join_providers ss ps))"
  by (auto simp: set_join_providers head_where_def head_match_def provider_active_def)

text \<open>
  Claim C6. A lookup with \<open>(user_id, head_hash, tail_hash)\<close> first returns as
  \<open>exact\<close> an active session of the user with both hashes whose provider is
  active, leaving the table as it is. Failing that it returns as \<open>head\<close> an active
  session of the user with the head hash whose provider is active, and the table then
  has that row's \<open>tail_hash\<close> set to the incoming value and \<open>last_accessed_at\<close> to
  now. Failing that it returns no match. In both cases the row returned is one accessed
  latest among the matching rows.
\<close>

theorem findMatchingSession_order:
  "(case findMatchingSession now u h t ps ss of ((r, mt), ss') \<Rightarrow>
      if \<exists>s \<in> set ss. exact_match u h t ps s
      then mt = Exact \<and> ss' = ss \<and> (\<exists>s. r = Some s \<and> latest_among (exact_match u h t ps) ss s)
      else if \<exists>s \<in> set ss. head_match u h ps s
      then mt = Head
         \<and> (\<exists>s. r = Some s \<and> latest_among (head_match u h ps) ss s
              \<and> ss' = map (\<lambda>row. if sid row = sid s
                                   then row\<lparr>context_hash_tail := t, last_accessed_at := now\<rparr>
                                   else row) ss)
      else r = None \<and> mt = NoMatch \<and> ss' = ss)"
proof -
  let ?E = "filter (exact_where u h t) (join_providers ss ps)"
  let ?H = "filter (head_where u h) (join_providers ss ps)"
  show ?thesis
  proof (cases "queryOne (order_by_last_accessed_desc ?E)")
    case (Some row)
    obtain s p where row: "row = (s, p)" by (cases row)
    from queryOne_ordered(2) [of ?E s p] Some row
    have mem: "(s, p) \<in> set ?E"
      and mx: "\<forall>(s', p') \<in> set ?E. last_accessed_at s' \<le> last_accessed_at s"
      by auto
    from exact_rows_iff(1) [OF mem] have s: "s \<in> set ss" "exact_match u h t ps s" by auto
    have "latest_among (exact_match u h t ps) ss s"
      unfolding latest_among_def
    proof (intro conjI ballI impI)
      fix s' assume "s' \<in> set ss" "exact_match u h t ps s'"
      from exact_rows_iff(2) [OF this] obtain p' where "(s', p') \<in> set ?E" by blast
      with mx show "last_accessed_at s' \<le> last_accessed_at s" by auto
    qed (use s in auto)
    with s Some row show ?thesis
      by (auto simp: findMatchingSession_def)
  next
    case None
    then have "?E = []" by (simp add: queryOne_ordered(1))
    then have noE: "\<not> (\<exists>s \<in> set ss. exact_match u h t ps s)"
      using exact_rows_iff(2) [of _ ss u h t ps] by fastforce
    show ?thesis
    proof (cases "queryOne (order_by_last_accessed_desc ?H)")
      case (Some row)
      obtain s p where row: "row = (s, p)" by (cases row)
      from queryOne_ordered(2) [of ?H s p] Some row
      have mem: "(s, p) \<in> set ?H"
        and mx: "\<forall>(s', p') \<in> set ?H. last_accessed_at s' \<le> last_accessed_at s"
        by auto
      from head_rows_iff(1) [OF mem] have s: "s \<in> set ss" "head_match u h ps s" by auto
      have "latest_among (head_match u h ps) ss s"
        unfolding latest_among_def
      proof (intro conjI ballI impI)
        fix s' assume "s' \<in> set ss" "head_match u h ps s'"
        from head_rows_iff(2) [OF this] obtain p' where "(s', p') \<in> set ?H" by blast
        with mx show "last_accessed_at s' \<le> last_accessed_at s" by auto
      qed (use s in auto)
      with s Some row None noE show ?thesis
        by (auto simp: findMatchingSession_def update_session_def)
    next
      case None2: None
      then have "?H = []" by (simp add: queryOne_ordered(1))
      then have noH: "\<not> (\<exists>s \<in> set ss. head_match u h ps s)"
        using head_rows_iff(2) [of _ ss u h ps] by fastforce
      with None None2 noE show ?thesis
        by (auto simp: findMatchingSession_def)
    qed
  qed
qed


definition session1 :: session where
  "session1 = \<lparr> sid = 1, provider_id = 1, user_id = Some 1, context_hash_head = ''h'',
     context_hash_tail = ''t0'', gemini_session_id = None, message_count = 5,
     s_status = SActive, expires_at = None, last_accessed_at = 10 \<rparr>"

definition session2 :: session where
  "session2 = \<lparr> sid = 2, provider_id = 1, user_id = Some 1, context_hash_head = ''h'',
     context_hash_tail = ''t1'', gemini_session_id = None, message_count = 6,
     s_status = SActive, expires_at = None, last_accessed_at = 20 \<rparr>"

lemma session12_head_match:
  "head_match 1 ''h'' [provider4] session1" "head_match 1 ''h'' [provider4] session2"
  "\<not> exact_match 1 ''h'' ''t9'' [provider4] session1"
  "\<not> exact_match 1 ''h'' ''t9'' [provider4] session2"
  by (simp_all add: head_match_def exact_match_def provider_active_def provider4_def
      session1_def session2_def)

theorem findMatchingSession_order_witness:
  "findMatchingSession 99 1 ''h'' ''t9'' [provider4] [session1, session2]
     = ((Some session2, Head),
        [session1, session2\<lparr>context_hash_tail := ''t9'', last_accessed_at := 99\<rparr>])"
proof -
  obtain r mt ss' where res:
    "findMatchingSession 99 1 ''h'' ''t9'' [provider4] [session1, session2] = ((r, mt), ss')"
    by (metis prod.exhaust)
  have noE: "\<not> (\<exists>s \<in> set [session1, session2]. exact_match 1 ''h'' ''t9'' [provider4] s)"
    using session12_head_match by simp
  have H: "\<exists>s \<in> set [session1, session2]. head_match 1 ''h'' [provider4] s"
    using session12_head_match by simp
  have "mt = Head \<and> (\<exists>s. r = Some s
      \<and> latest_among (head_match 1 ''h'' [provider4]) [session1, session2] s
      \<and> ss' = map (\<lambda>row. if sid row = sid s
                           then row\<lparr>context_hash_tail := ''t9'', last_accessed_at := 99\<rparr>
                           else row) [session1, session2])"
    using findMatchingSession_order [where now = 99 and u = 1 and h = "''h''" and t = "''t9''"
      and ps = "[provider4]" and ss = "[session1, session2]"]
    unfolding res using noE H by (simp only: if_True if_False prod.case)
  then obtain s where mt: "mt = Head" and r: "r = Some s"
    and la: "latest_among (head_match 1 ''h'' [provider4]) [session1, session2] s"
    and ss': "ss' = map (\<lambda>row. if sid row = sid s
                           then row\<lparr>context_hash_tail := ''t9'', last_accessed_at := 99\<rparr>
                           else row) [session1, session2]"
    by blast
  have "last_accessed_at session2 \<le> last_accessed_at s" and "s = session1 \<or> s = session2"
    using la session12_head_match(2) by (auto simp: latest_among_def)
  then have s: "s = session2"
    by (auto simp: session1_def session2_def)
  have "sid session1 \<noteq> sid session2"
    by (simp add: session1_def session2_def)
  with res mt r ss' s show ?thesis by simp
qed


section \<open>The store and the scheduler (provider-scheduler.js)\<close>

text \<open>
  The scheduler and the executor run against the persistent store. Every awaited store
  statement can reject (a lost connection, a lock timeout); \<open>faults\<close> says which kinds
  of statement reject during the run. A rejected statement changes nothing and throws.
  Exceptions are values: an action returns \<open>Inl message\<close> when it throws. The
  \<open>journal\<close> is not part of the program: it records, in order, the load and outcome
  statements the store has executed, so that acquisitions and releases can be counted.
  \<open>providerId\<close> and \<open>sessionId\<close> are the two local variables of \<open>generateContent\<close>
  that its \<open>catch\<close> block reads.
\<close>

datatype store_call =
  GetAvailableCall | IncrementLoadCall | DecrementLoadCall | RecordSuccessCall
  | RecordFailureCall | SessionCall | LogCall

datatype event = Incremented nat | Decremented nat | SuccessRecorded nat | FailureRecorded nat

record log_row =
  l_provider_id :: "nat option"
  l_session_id :: "nat option"
  l_request_type :: string
  l_input_tokens :: int
  l_output_tokens :: int
  l_status_code :: int
  l_error_message :: "string option"

record world =
  providers :: "provider list"
  sessions :: "session list"
  next_session_id :: nat
  request_logs :: "log_row list"
  journal :: "event list"
  providerId :: "nat option"
  sessionId :: "nat option"

type_synonym 'a action = "world \<Rightarrow> (string + 'a) \<times> world"

definition return :: "'a \<Rightarrow> 'a action" where
  "return a w = (Inr a, w)"

definition throw :: "string \<Rightarrow> 'a action" where
  "throw e w = (Inl e, w)"

definition bind :: "'a action \<Rightarrow> ('a \<Rightarrow> 'b action) \<Rightarrow> 'b action" where
  "bind m f w = (case m w of (Inl e, w') \<Rightarrow> (Inl e, w') | (Inr a, w') \<Rightarrow> f a w')"

definition try_catch :: "'a action \<Rightarrow> (string \<Rightarrow> 'a action) \<Rightarrow> 'a action" where
  "try_catch m h w = (case m w of (Inl e, w') \<Rightarrow> h e w' | (Inr a, w') \<Rightarrow> (Inr a, w'))"

definition store_call :: "(store_call \<Rightarrow> bool) \<Rightarrow> store_call \<Rightarrow> (world \<Rightarrow> world) \<Rightarrow> unit action" where
  "store_call faults c f w = (if faults c then (Inl ''store error'', w) else (Inr (), f w))"

text \<open>
  The value of the option \<open>excludeId\<close>: \<open>null\<close>, a number (as its documentation
  says), or the array that \<open>executeWithRetry\<close> passes. \<open>truthy_exclude\<close> is the test
  \<open>if (excludeId)\<close>: an array is truthy even when empty. \<open>strict_neq\<close> is
  \<open>p.id !== excludeId\<close>: a number is never strictly equal to an array.
\<close>

datatype exclude = ExNull | ExId nat | ExIds "nat list"

definition truthy_exclude :: "exclude \<Rightarrow> bool" where
  "truthy_exclude x = (case x of ExNull \<Rightarrow> False | ExId n \<Rightarrow> n \<noteq> 0 | ExIds ns \<Rightarrow> True)"

definition strict_neq :: "nat \<Rightarrow> exclude \<Rightarrow> bool" where
  "strict_neq i x = (case x of ExNull \<Rightarrow> True | ExId n \<Rightarrow> i \<noteq> n | ExIds ns \<Rightarrow> True)"

definition load_ratio :: "provider \<Rightarrow> rat" where
  "load_ratio p = of_int (current_load p) / of_int (max_concurrent p)"

text \<open>
  \<open>getAvailableProviders\<close> is the selection query: the \<open>WHERE\<close> clause, \<open>ORDER BY
  health_score DESC, (current_load / max_concurrent) ASC\<close> as a stable sort on the
  exact quotient, and \<open>LIMIT 20\<close>. \<open>groupId\<close> filters only when truthy. A candidate
  has \<open>current_load < max_concurrent\<close>, so with a load that is never negative the
  divisor is positive.
\<close>

definition getAvailableProviders :: "config \<Rightarrow> nat option \<Rightarrow> provider list \<Rightarrow> provider list" where
  "getAvailableProviders cfg groupId ps =
     take 20 (sort_key (\<lambda>p. (- health_score p, load_ratio p))
       (filter (\<lambda>p. status p = PActive \<and> health_score p \<ge> healthThreshold cfg
                     \<and> current_load p < max_concurrent p
                     \<and> (case groupId of None \<Rightarrow> True
                         | Some g \<Rightarrow> if g = 0 then True else group_id p = Some g)) ps))"

text \<open>
  \<open>weightedRandom\<close> with \<open>r\<close> the value of \<open>Math.random()\<close>, computed in exact
  arithmetic; \<open>pick\<close> is its \<open>for\<close> loop and the final case is \<open>providers[0]\<close>,
  which is \<open>undefined\<close> for an empty array.
\<close>

fun pick :: "rat \<Rightarrow> (provider \<times> rat) list \<Rightarrow> provider option" where
  "pick random [] = None"
| "pick random ((p, w) # rest) =
     (let random' = random - w in if random' \<le> 0 then Some p else pick random' rest)"

definition weightedRandom :: "rat \<Rightarrow> provider list \<Rightarrow> provider option" where
  "weightedRandom r ps =
     (let weights = map (\<lambda>p. of_int (health_score p) * (1 - load_ratio p)) ps;
          totalWeight = foldl (+) 0 weights
      in case pick (r * totalWeight) (zip ps weights) of
           Some p \<Rightarrow> Some p
         | None \<Rightarrow> (case ps of [] \<Rightarrow> None | p # _ \<Rightarrow> Some p))"

definition selectProvider ::
  "config \<Rightarrow> (store_call \<Rightarrow> bool) \<Rightarrow> rat \<Rightarrow> nat option \<Rightarrow> exclude \<Rightarrow> provider action" where
  "selectProvider cfg faults r groupId excludeId w =
     (if faults GetAvailableCall then (Inl ''store error'', w)
      else let ps = getAvailableProviders cfg groupId (providers w);
               candidates = (if truthy_exclude excludeId
                             then filter (\<lambda>p. strict_neq (pid p) excludeId) ps else ps)
           in if length candidates = 0 then (Inl ''No available provider'', w)
              else case weightedRandom r candidates of
                     None \<Rightarrow> (Inl ''TypeError: selected is undefined'', w)
                   | Some selected \<Rightarrow> (Inr selected, w))"

definition acquireProvider ::
  "config \<Rightarrow> (store_call \<Rightarrow> bool) \<Rightarrow> rat \<Rightarrow> nat option \<Rightarrow> exclude \<Rightarrow> provider action" where
  "acquireProvider cfg faults r groupId excludeId =
     bind (selectProvider cfg faults r groupId excludeId) (\<lambda>provider.
     bind (store_call faults IncrementLoadCall
            (\<lambda>w. w\<lparr>providers := incrementLoad (pid provider) (providers w),
                    journal := journal w @ [Incremented (pid provider)]\<rparr>)) (\<lambda>_.
     return provider))"

definition releaseProvider :: "(store_call \<Rightarrow> bool) \<Rightarrow> nat \<Rightarrow> unit action" where
  "releaseProvider faults i =
     store_call faults DecrementLoadCall
       (\<lambda>w. w\<lparr>providers := decrementLoad i (providers w), journal := journal w @ [Decremented i]\<rparr>)"

definition schedRecordSuccess :: "(store_call \<Rightarrow> bool) \<Rightarrow> int \<Rightarrow> nat \<Rightarrow> unit action" where
  "schedRecordSuccess faults now i =
     store_call faults RecordSuccessCall
       (\<lambda>w. w\<lparr>providers := recordSuccess now i (providers w),
               journal := journal w @ [SuccessRecorded i]\<rparr>)"

definition schedRecordFailure :: "config \<Rightarrow> (store_call \<Rightarrow> bool) \<Rightarrow> int \<Rightarrow> nat \<Rightarrow> unit action" where
  "schedRecordFailure cfg faults now i =
     store_call faults RecordFailureCall
       (\<lambda>w. w\<lparr>providers := snd (recordFailure cfg now i (providers w)),
               journal := journal w @ [FailureRecorded i]\<rparr>)"

text \<open>
  \<open>executeWithRetry(operation, {maxRetries, groupId})\<close>: \<open>retry_loop\<close> is the \<open>for\<close>
  loop with \<open>n\<close> attempts left. \<open>operation attempt provider\<close> is the outcome of the
  caller's operation at that attempt, \<open>rnd attempt\<close> the random draw of the attempt.
  \<open>acquireProvider\<close> stands before the \<open>try\<close>, so what it throws leaves the loop.
  The set \<open>excludeIds\<close> is a list in insertion order without duplicates. The option
  \<open>onProviderChange\<close> keeps its default \<open>null\<close>.
\<close>

fun retry_loop ::
  "config \<Rightarrow> (store_call \<Rightarrow> bool) \<Rightarrow> (nat \<Rightarrow> rat) \<Rightarrow> int \<Rightarrow> (nat \<Rightarrow> provider \<Rightarrow> string + 'a)
     \<Rightarrow> nat option \<Rightarrow> nat \<Rightarrow> nat \<Rightarrow> string option \<Rightarrow> nat list \<Rightarrow> ('a \<times> provider) action" where
  "retry_loop cfg faults rnd now operation groupId 0 attempt lastError excludeIds =
     throw (case lastError of Some e \<Rightarrow> e | None \<Rightarrow> ''All providers failed'')"
| "retry_loop cfg faults rnd now operation groupId (Suc n) attempt lastError excludeIds =
     bind (acquireProvider cfg faults (rnd attempt) groupId
             (if length excludeIds > 0 then ExIds excludeIds else ExNull)) (\<lambda>provider.
     bind (try_catch
            (bind (\<lambda>w. (operation attempt provider, w)) (\<lambda>result.
             bind (schedRecordSuccess faults now (pid provider)) (\<lambda>_.
             bind (releaseProvider faults (pid provider)) (\<lambda>_.
             return (Inr result)))))
            (\<lambda>error.
             bind (schedRecordFailure cfg faults now (pid provider)) (\<lambda>_.
             bind (releaseProvider faults (pid provider)) (\<lambda>_.
             return (Inl error))))) (\<lambda>outcome.
     case outcome of
       Inr result \<Rightarrow> return (result, provider)
     | Inl error \<Rightarrow>
         retry_loop cfg faults rnd now operation groupId n (Suc attempt) (Some error)
           (if pid provider \<in> set excludeIds then excludeIds else excludeIds @ [pid provider])))"

definition executeWithRetry ::
  "config \<Rightarrow> (store_call \<Rightarrow> bool) \<Rightarrow> (nat \<Rightarrow> rat) \<Rightarrow> int \<Rightarrow> (nat \<Rightarrow> provider \<Rightarrow> string + 'a)
     \<Rightarrow> nat \<Rightarrow> nat option \<Rightarrow> ('a \<times> provider) action" where
  "executeWithRetry cfg faults rnd now operation maxRetries groupId =
     retry_loop cfg faults rnd now operation groupId maxRetries 1 None []"

section \<open>The session matcher and the executor\<close>

text \<open>
  The field \<open>contents\<close> of a request body: missing (\<open>undefined\<close>), a truthy value that
  is not an array (an object or a non-empty string), or an array of messages.
\<close>

datatype contents = Missing | NotArray | Messages "message list"

definition countActive :: "nat \<Rightarrow> session list \<Rightarrow> int" where
  "countActive userId ss =
     int (length (filter (\<lambda>s. user_id s = Some userId \<and> s_status s = SActive) ss))"

definition deleteOldest :: "nat \<Rightarrow> session list \<Rightarrow> session list" where
  "deleteOldest userId ss =
     (case sort_key last_accessed_at
             (filter (\<lambda>s. user_id s = Some userId \<and> s_status s = SActive) ss) of
        [] \<Rightarrow> ss
      | d # _ \<Rightarrow> filter (\<lambda>s. sid s \<noteq> sid d) ss)"

text \<open>
  \<open>Session.createSession\<close>: when the user has \<open>maxPerUser\<close> active sessions the one
  accessed longest ago is deleted; the new row takes the next \<open>AUTO_INCREMENT\<close> id
  and the column defaults.
\<close>

definition createSession ::
  "config \<Rightarrow> int \<Rightarrow> nat \<Rightarrow> nat \<Rightarrow> string \<Rightarrow> string \<Rightarrow> world \<Rightarrow> session \<times> world" where
  "createSession cfg now providerId' userId headHash tailHash w =
     (let ss = (if userId \<noteq> 0 \<and> countActive userId (sessions w) \<ge> maxPerUser cfg
                then deleteOldest userId (sessions w) else sessions w);
          new = \<lparr> sid = next_session_id w, provider_id = providerId', user_id = Some userId,
                  context_hash_head = headHash, context_hash_tail = tailHash,
                  gemini_session_id = None, message_count = 0, s_status = SActive,
                  expires_at = Some (now + sessionTtl cfg), last_accessed_at = now \<rparr>
      in (new, w\<lparr>sessions := ss @ [new], next_session_id := Suc (next_session_id w)\<rparr>))"

record hash_lib =
  lib_md5 :: "string \<Rightarrow> string"
  lib_randomString :: string

text \<open>
  \<open>matchOrCreate\<close>: \<open>generateSessionHashes\<close> throws a \<open>TypeError\<close> at
  \<open>messages.filter\<close> when \<open>messages\<close> is not an array, and the debug log line throws
  one at \<open>messages.length\<close> when \<open>messages\<close> is missing.
\<close>

definition matchOrCreate ::
  "config \<Rightarrow> (store_call \<Rightarrow> bool) \<Rightarrow> hash_lib \<Rightarrow> int \<Rightarrow> nat \<Rightarrow> nat \<Rightarrow> contents
     \<Rightarrow> (session \<times> bool \<times> match_type) action" where
  "matchOrCreate cfg faults lib now userId providerId' messages =
     bind (case messages of
             Missing \<Rightarrow> return (generateSessionHashes (lib_md5 lib) (lib_randomString lib) None)
           | NotArray \<Rightarrow> throw ''TypeError: messages.filter is not a function''
           | Messages ms \<Rightarrow> return (generateSessionHashes (lib_md5 lib) (lib_randomString lib) (Some ms)))
       (\<lambda>(headHash, tailHash).
     bind (case messages of
             Missing \<Rightarrow> throw ''TypeError: messages is undefined''
           | _ \<Rightarrow> return ()) (\<lambda>_.
     bind (\<lambda>w. if faults SessionCall then (Inl ''store error'', w)
               else case findMatchingSession now userId headHash tailHash (providers w) (sessions w) of
                      (found, ss') \<Rightarrow> (Inr found, w\<lparr>sessions := ss'\<rparr>)) (\<lambda>(session, matchType).
     case session of
       Some s \<Rightarrow> return (s, False, matchType)
     | None \<Rightarrow>
         if providerId' = 0 then throw ''Provider ID required for new session''
         else bind (\<lambda>w. if faults SessionCall then (Inl ''store error'', w)
                         else case createSession cfg now providerId' userId headHash tailHash w of
                                (new, w') \<Rightarrow> (Inr new, w')) (\<lambda>newSession.
              return (newSession, True, New)))))"

definition updateGeminiSession :: "(store_call \<Rightarrow> bool) \<Rightarrow> int \<Rightarrow> nat \<Rightarrow> string \<Rightarrow> unit action" where
  "updateGeminiSession faults now i geminiSessionId =
     store_call faults SessionCall
       (\<lambda>w. w\<lparr>sessions := update_session i
                 (\<lambda>r. r\<lparr>gemini_session_id := Some geminiSessionId, last_accessed_at := now\<rparr>)
                 (sessions w)\<rparr>)"

definition recordMessage :: "config \<Rightarrow> (store_call \<Rightarrow> bool) \<Rightarrow> int \<Rightarrow> nat \<Rightarrow> unit action" where
  "recordMessage cfg faults now i =
     store_call faults SessionCall
       (\<lambda>w. w\<lparr>sessions := update_session i
                 (\<lambda>r. r\<lparr>message_count := message_count r + 1, last_accessed_at := now,
                         expires_at := Some (now + sessionTtl cfg)\<rparr>)
                 (sessions w)\<rparr>)"

definition requestLog :: "(store_call \<Rightarrow> bool) \<Rightarrow> string \<Rightarrow> int \<Rightarrow> int \<Rightarrow> int \<Rightarrow> string option \<Rightarrow> unit action" where
  "requestLog faults requestType inputTokens outputTokens statusCode errorMessage =
     store_call faults LogCall
       (\<lambda>w. w\<lparr>request_logs := request_logs w @
                 [\<lparr> l_provider_id = providerId w, l_session_id = sessionId w,
                    l_request_type = requestType, l_input_tokens = inputTokens,
                    l_output_tokens = outputTokens, l_status_code = statusCode,
                    l_error_message = errorMessage \<rparr>]\<rparr>)"

text \<open>
  What one call of \<open>generateContent\<close> meets outside the store: the configuration, the
  faults of the store, the random draw, the clock, the hash functions, and the upstream
  client's answers. \<open>upstream_sendMessage\<close> is the result of \<open>client.sendMessage\<close>
  followed by \<open>client.parseResponse\<close>; \<open>wantsImage\<close> is the value of \<open>_wantsImage\<close>
  and \<open>fetchImage\<close> that of \<open>_fetchImage\<close>, which catches its own errors.
\<close>

record env =
  e_cfg :: config
  e_faults :: "store_call \<Rightarrow> bool"
  e_random :: rat
  e_now :: int
  e_hashes :: hash_lib
  upstream_createSession :: "string + string"
  upstream_sendMessage :: "string + parsed_response"
  wantsImage :: bool
  fetchImage :: "image_data option"

record request =
  r_userId :: nat
  r_model :: string
  r_contents :: contents
  r_includeThoughts :: bool

definition set_local :: "(world \<Rightarrow> world) \<Rightarrow> unit action" where
  "set_local f w = (Inr (), f w)"

definition lastMessageText :: "contents \<Rightarrow> string action" where
  "lastMessageText c =
     (case c of Missing \<Rightarrow> return (getLastMessageText None)
      | NotArray \<Rightarrow> throw ''TypeError: lastMsg is undefined''
      | Messages ms \<Rightarrow> return (getLastMessageText (Some ms)))"

text \<open>
  \<open>generateContent\<close>: the body of the \<open>try\<close>, the \<open>catch\<close> block, and their
  composition. The \<open>catch\<close> releases and records a failure when \<open>providerId\<close> is
  truthy, writes a log row with status 500 and rethrows the message. The client cache
  of \<open>getClient\<close> touches neither the store nor the outcome and is left out.
\<close>

definition generateContent_try :: "env \<Rightarrow> request \<Rightarrow> response action" where
  "generateContent_try e req =
     bind (acquireProvider (e_cfg e) (e_faults e) (e_random e) None ExNull) (\<lambda>provider.
     bind (set_local (\<lambda>w. w\<lparr>providerId := Some (pid provider)\<rparr>)) (\<lambda>_.
     bind (matchOrCreate (e_cfg e) (e_faults e) (e_hashes e) (e_now e) (r_userId req) (pid provider)
             (r_contents req)) (\<lambda>(session, isNew, matchType).
     bind (set_local (\<lambda>w. w\<lparr>sessionId := Some (sid session)\<rparr>)) (\<lambda>_.
     bind (lastMessageText (r_contents req)) (\<lambda>query.
     bind (case gemini_session_id session of
             Some g \<Rightarrow> if g \<noteq> [] then return g
                       else bind (\<lambda>w. (upstream_createSession e, w)) (\<lambda>name.
                            bind (updateGeminiSession (e_faults e) (e_now e) (sid session) name) (\<lambda>_.
                            return name))
           | None \<Rightarrow> bind (\<lambda>w. (upstream_createSession e, w)) (\<lambda>name.
                     bind (updateGeminiSession (e_faults e) (e_now e) (sid session) name) (\<lambda>_.
                     return name))) (\<lambda>geminiSessionId.
     bind (\<lambda>w. (upstream_sendMessage e, w)) (\<lambda>parsed.
     bind (return (if wantsImage e then fetchImage e else None)) (\<lambda>imageData.
     bind (return (buildResponse parsed imageData (r_model req) (r_includeThoughts req))) (\<lambda>response.
     bind (recordMessage (e_cfg e) (e_faults e) (e_now e) (sid session)) (\<lambda>_.
     bind (releaseProvider (e_faults e) (pid provider)) (\<lambda>_.
     bind (schedRecordSuccess (e_faults e) (e_now e) (pid provider)) (\<lambda>_.
     bind (requestLog (e_faults e) ''generateContent''
             (promptTokenCount (usageMetadata response))
             (candidatesTokenCount (usageMetadata response)) 200 None) (\<lambda>_.
     return response)))))))))))))"

definition generateContent_catch :: "env \<Rightarrow> string \<Rightarrow> response action" where
  "generateContent_catch e error =
     bind (\<lambda>w. case providerId w of
                 None \<Rightarrow> (Inr (), w)
               | Some i \<Rightarrow>
                   if i = 0 then (Inr (), w)
                   else bind (releaseProvider (e_faults e) i) (\<lambda>_.
                        schedRecordFailure (e_cfg e) (e_faults e) (e_now e) i) w) (\<lambda>_.
     bind (requestLog (e_faults e) ''generateContent'' 0 0 500 (Some error)) (\<lambda>_.
     throw error))"

definition generateContent :: "env \<Rightarrow> request \<Rightarrow> response action" where
  "generateContent e req w =
     try_catch (generateContent_try e req) (generateContent_catch e)
       (w\<lparr>providerId := None, sessionId := None\<rparr>)"

text \<open>
  A store with one healthy provider that already carries one request in flight, and the
  inputs of the runs below.
\<close>

definition provider1 :: provider where
  "provider1 = \<lparr> pid = 1, group_id = None, status = PActive, health_score = 100,
     current_load = 1, max_concurrent = 10, total_requests = 0, failed_requests = 0,
     consecutive_failures = 0, last_failure_at = None, last_success_at = None,
     cooldown_until = None \<rparr>"

definition world1 :: world where
  "world1 = \<lparr> providers = [provider1], sessions = [], next_session_id = 1,
     request_logs = [], journal = [], providerId = None, sessionId = None \<rparr>"

definition no_faults :: "store_call \<Rightarrow> bool" where
  "no_faults c = False"

definition always_fails :: "nat \<Rightarrow> provider \<Rightarrow> string + unit" where
  "always_fails attempt p = Inl ''upstream error''"

definition half :: "nat \<Rightarrow> rat" where "half n = 1 / 2"

definition fails_only :: "store_call \<Rightarrow> store_call \<Rightarrow> bool" where
  "fails_only c c' = (c' = c)"

definition hash_id :: hash_lib where
  "hash_id = \<lparr> lib_md5 = id, lib_randomString = ''r'' \<rparr>"

definition parsed_ok :: parsed_response where
  "parsed_ok = \<lparr> thoughts = [], content = [72, 105], state = ''SUCCEEDED'' \<rparr>"

definition env_ok :: "(store_call \<Rightarrow> bool) \<Rightarrow> env" where
  "env_ok f = \<lparr> e_cfg = default_config, e_faults = f, e_random = 1 / 2, e_now = 1000, e_hashes = hash_id,
     upstream_createSession = Inr ''sessions/1'', upstream_sendMessage = Inr parsed_ok,
     wantsImage = False, fetchImage = None \<rparr>"

definition req_hello :: request where
  "req_hello = \<lparr> r_userId = 1, r_model = ''gemini-2.0-flash-exp'', r_contents = Messages [msg_hello],
     r_includeThoughts = False \<rparr>"

definition req_missing :: request where
  "req_missing = \<lparr> r_userId = 1, r_model = ''gemini-2.0-flash-exp'', r_contents = Missing,
     r_includeThoughts = False \<rparr>"

lemma selectProvider_ignores_exclude_list:
  "selectProvider cfg faults r groupId (ExIds ids) = selectProvider cfg faults r groupId ExNull"
  by (rule ext) (simp add: selectProvider_def truthy_exclude_def strict_neq_def)


section \<open>Runs of the scheduler and the executor\<close>

lemma store_call_ok: "\<not> faults c \<Longrightarrow> store_call faults c f w = (Inr (), f w)"
  by (simp add: store_call_def)

lemma store_call_fail: "faults c \<Longrightarrow> store_call faults c f w = (Inl ''store error'', w)"
  by (simp add: store_call_def)

lemma weightedRandom_single: "weightedRandom r [p] = Some p"
  by (simp add: weightedRandom_def Let_def split: option.split)

lemma acquire_single:
  assumes "\<not> faults GetAvailableCall" and "\<not> faults IncrementLoadCall"
    and "getAvailableProviders cfg groupId (providers w) = [p]"
    and "strict_neq (pid p) excludeId"
  shows "acquireProvider cfg faults r groupId excludeId w
    = (Inr p, w\<lparr>providers := incrementLoad (pid p) (providers w),
                  journal := journal w @ [Incremented (pid p)]\<rparr>)"
  using assms
  by (simp add: acquireProvider_def bind_def selectProvider_def weightedRandom_single
      store_call_ok return_def Let_def)

lemma retry_step_fail:
  assumes nf: "\<forall>c. \<not> faults c"
    and av: "getAvailableProviders cfg groupId (providers w) = [p]"
    and op: "operation attempt p = Inl e"
  shows "retry_loop cfg faults rnd now operation groupId (Suc n) attempt lastError excludeIds w
    = retry_loop cfg faults rnd now operation groupId n (Suc attempt) (Some e)
        (if pid p \<in> set excludeIds then excludeIds else excludeIds @ [pid p])
        (w\<lparr>providers := decrementLoad (pid p)
                (snd (recordFailure cfg now (pid p) (incrementLoad (pid p) (providers w)))),
            journal := journal w @ [Incremented (pid p), FailureRecorded (pid p), Decremented (pid p)]\<rparr>)"
proof -
  have sn: "strict_neq (pid p) (if length excludeIds > 0 then ExIds excludeIds else ExNull)"
    by (simp add: strict_neq_def)
  from nf have nf': "\<not> faults c" for c by simp
  note acq = acquire_single [OF nf' nf' av sn, where r = "rnd attempt"]
  show ?thesis
    by (simp only: retry_loop.simps bind_def acq prod.case sum.case)
       (simp add: bind_def try_catch_def op schedRecordFailure_def releaseProvider_def
         store_call_ok nf' return_def)
qed

definition provider1_failed1 :: provider where
  "provider1_failed1 = provider1\<lparr>consecutive_failures := 1, last_failure_at := Some 1000,
     health_score := 90, failed_requests := 1, total_requests := 1\<rparr>"

definition provider1_failed2 :: provider where
  "provider1_failed2 = provider1\<lparr>consecutive_failures := 2, last_failure_at := Some 1000,
     health_score := 80, failed_requests := 2, total_requests := 2\<rparr>"

lemma attempt_tables:
  "decrementLoad (Suc 0) (snd (recordFailure default_config 1000 (Suc 0)
      (incrementLoad (Suc 0) [provider1]))) = [provider1_failed1]"
  "decrementLoad (Suc 0) (snd (recordFailure default_config 1000 (Suc 0)
      (incrementLoad (Suc 0) [provider1_failed1]))) = [provider1_failed2]"
  by (simp_all add: default_config_def provider1_def provider1_failed1_def provider1_failed2_def
      decrementLoad_def incrementLoad_def recordFailure_def update_rows_def findById_def Let_def)

lemma attempt_available:
  "getAvailableProviders default_config None [provider1] = [provider1]"
  "getAvailableProviders default_config None [provider1_failed1] = [provider1_failed1]"
  by (simp_all add: getAvailableProviders_def default_config_def provider1_def provider1_failed1_def)

text \<open>
  Claim C1 says that after an attempt fails on a provider no later attempt of the same
  run acquires that provider again. The code does not do that: the exclude set reaches
  \<open>selectProvider\<close> as an array, and the filter \<open>p.id !== excludeId\<close> then keeps every
  candidate (\<open>selectProvider_ignores_exclude_list\<close>). With one healthy provider and
  an operation that always fails, a run of two attempts acquires provider 1, records
  its failure, releases it, and acquires provider 1 again.
\<close>

theorem executeWithRetry_reacquires:
  "fst (executeWithRetry default_config no_faults half 1000 always_fails 2 None world1)
     = Inl ''upstream error''
   \<and> journal (snd (executeWithRetry default_config no_faults half 1000 always_fails 2 None world1))
     = [Incremented 1, FailureRecorded 1, Decremented 1,
        Incremented 1, FailureRecorded 1, Decremented 1]"
proof -
  have two: "(2::nat) = Suc (Suc 0)" by simp
  have p1: "pid provider1 = 1" "pid provider1_failed1 = 1"
    by (simp_all add: provider1_def provider1_failed1_def)
  have nf: "\<forall>c. \<not> no_faults c" by (simp add: no_faults_def)
  have op: "always_fails a p = Inl ''upstream error''" for a p by (simp add: always_fails_def)
  let ?w1 = "world1\<lparr>providers := [provider1_failed1],
               journal := [Incremented 1, FailureRecorded 1, Decremented 1]\<rparr>"
  let ?w2 = "world1\<lparr>providers := [provider1_failed2],
               journal := [Incremented 1, FailureRecorded 1, Decremented 1,
                           Incremented 1, FailureRecorded 1, Decremented 1]\<rparr>"
  have pre1: "getAvailableProviders default_config None (providers world1) = [provider1]"
    by (simp add: world1_def attempt_available)
  have pre2: "getAvailableProviders default_config None (providers ?w1) = [provider1_failed1]"
    by (simp add: world1_def attempt_available)
  have s1: "retry_loop default_config no_faults half 1000 always_fails None (Suc (Suc 0)) 1 None [] world1
      = retry_loop default_config no_faults half 1000 always_fails None (Suc 0) (Suc 1)
          (Some ''upstream error'') [1] ?w1"
    by (subst retry_step_fail [where operation = always_fails and attempt = 1 and p = provider1
          and e = "''upstream error''", OF nf pre1 op])
       (simp add: world1_def attempt_tables p1 del: retry_loop.simps)
  have s2: "retry_loop default_config no_faults half 1000 always_fails None (Suc 0) (Suc 1)
          (Some ''upstream error'') [1] ?w1
      = retry_loop default_config no_faults half 1000 always_fails None 0 (Suc (Suc 1))
          (Some ''upstream error'') [1] ?w2"
    by (subst retry_step_fail [where operation = always_fails and attempt = "Suc 1"
          and p = provider1_failed1 and e = "''upstream error''", OF nf pre2 op])
       (simp add: world1_def attempt_tables p1 del: retry_loop.simps)
  show ?thesis
    unfolding executeWithRetry_def two s1 s2
    by (simp add: throw_def world1_def)
qed


lemma world1_fields:
  "providers world1 = [provider1]" "sessions world1 = []" "next_session_id world1 = 1"
  "request_logs world1 = []" "journal world1 = []"
  by (simp_all add: world1_def)

lemma acquire_provider1:
  assumes "\<not> faults GetAvailableCall" and "\<not> faults IncrementLoadCall"
    and "providers w = [provider1]"
  shows "acquireProvider default_config faults r None ExNull w
    = (Inr provider1, w\<lparr>providers := [provider1\<lparr>current_load := 2\<rparr>],
                          journal := journal w @ [Incremented 1]\<rparr>)"
proof -
  have av: "getAvailableProviders default_config None (providers w) = [provider1]"
    using assms(3) by (simp add: attempt_available)
  have sn: "strict_neq (pid provider1) ExNull" by (simp add: strict_neq_def)
  have "incrementLoad (pid provider1) (providers w) = [provider1\<lparr>current_load := 2\<rparr>]"
    using assms(3) by (simp add: incrementLoad_def update_rows_def provider1_def)
  moreover have "pid provider1 = 1" by (simp add: provider1_def)
  ultimately show ?thesis
    using acquire_single [OF assms(1,2) av sn, where r = r] by simp
qed

lemma matchOrCreate_missing:
  "matchOrCreate c f lib n u p Missing w = (Inl ''TypeError: messages is undefined'', w)"
  by (simp add: matchOrCreate_def bind_def return_def throw_def split: prod.split)

lemma matchOrCreate_new:
  assumes "\<not> faults SessionCall" and "sessions w = []" and "p \<noteq> 0"
  shows "matchOrCreate c faults lib n u p (Messages ms) w
    = (Inr (\<lparr> sid = next_session_id w, provider_id = p, user_id = Some u,
             context_hash_head = fst (generateSessionHashes (lib_md5 lib) (lib_randomString lib) (Some ms)),
             context_hash_tail = snd (generateSessionHashes (lib_md5 lib) (lib_randomString lib) (Some ms)),
             gemini_session_id = None, message_count = 0, s_status = SActive,
             expires_at = Some (n + sessionTtl c), last_accessed_at = n \<rparr>, True, New),
       w\<lparr>sessions := [\<lparr> sid = next_session_id w, provider_id = p, user_id = Some u,
             context_hash_head = fst (generateSessionHashes (lib_md5 lib) (lib_randomString lib) (Some ms)),
             context_hash_tail = snd (generateSessionHashes (lib_md5 lib) (lib_randomString lib) (Some ms)),
             gemini_session_id = None, message_count = 0, s_status = SActive,
             expires_at = Some (n + sessionTtl c), last_accessed_at = n \<rparr>],
          next_session_id := Suc (next_session_id w)\<rparr>)"
  using assms
  by (simp add: matchOrCreate_def bind_def return_def throw_def findMatchingSession_def
      join_providers_def queryOne_def order_by_last_accessed_desc_def createSession_def
      countActive_def deleteOldest_def Let_def split: prod.split)

lemma provider1_pid: "pid provider1 = 1"
  by (simp add: provider1_def)

lemma release_provider1:
  "decrementLoad (Suc 0) [provider1\<lparr>current_load := 2\<rparr>] = [provider1]"
  "decrementLoad (Suc 0) [provider1] = [provider1\<lparr>current_load := 0\<rparr>]"
  by (simp_all add: decrementLoad_def update_rows_def provider1_def)

text \<open>
  Claim C3 says that a request without \<open>contents\<close> fails with status 400 and acquires
  no provider. The code acquires a provider before it looks at \<open>contents\<close>: for a
  request whose \<open>contents\<close> is missing, the load of provider 1 is incremented and
  decremented again, a failure is recorded against the provider (its health score
  falls from 100 to 90), and the request is logged with status 500.
\<close>

theorem generateContent_missing_contents:
  "fst (generateContent (env_ok no_faults) req_missing world1) = Inl ''TypeError: messages is undefined''
   \<and> journal (snd (generateContent (env_ok no_faults) req_missing world1))
       = [Incremented 1, Decremented 1, FailureRecorded 1]
   \<and> map l_status_code (request_logs (snd (generateContent (env_ok no_faults) req_missing world1))) = [500]
   \<and> map current_load (providers (snd (generateContent (env_ok no_faults) req_missing world1))) = [1]
   \<and> map health_score (providers (snd (generateContent (env_ok no_faults) req_missing world1))) = [90]"
  by (simp add: generateContent_def try_catch_def generateContent_try_def bind_def
      env_ok_def req_missing_def no_faults_def acquire_provider1 world1_fields set_local_def
      matchOrCreate_missing generateContent_catch_def releaseProvider_def store_call_def
      release_provider1 schedRecordFailure_def requestLog_def throw_def)
     (simp add: recordFailure_def findById_def update_rows_def decrementLoad_def Let_def provider1_def
       default_config_def)

text \<open>
  Claim C2 says that every acquisition is followed by exactly one release on every path.
  In \<open>generateContent\<close> the release stands inside the \<open>try\<close>, before
  \<open>recordSuccess\<close> and the log insert. When the store rejects \<open>recordSuccess\<close>, the
  \<open>catch\<close> block releases a second time: one increment, two decrements, and the load
  of provider 1, which carried another request, falls from 1 to 0.
\<close>

theorem generateContent_double_release:
  "fst (generateContent (env_ok (fails_only RecordSuccessCall)) req_hello world1) = Inl ''store error''
   \<and> journal (snd (generateContent (env_ok (fails_only RecordSuccessCall)) req_hello world1))
       = [Incremented 1, Decremented 1, Decremented 1, FailureRecorded 1]
   \<and> map current_load (providers world1) = [1]
   \<and> map current_load (providers (snd (generateContent (env_ok (fails_only RecordSuccessCall)) req_hello world1))) = [0]"
  by (simp add: generateContent_def try_catch_def generateContent_try_def bind_def
      env_ok_def req_hello_def fails_only_def acquire_provider1 world1_fields set_local_def
      provider1_pid matchOrCreate_new lastMessageText_def return_def updateGeminiSession_def
      recordMessage_def schedRecordSuccess_def
      generateContent_catch_def releaseProvider_def store_call_def
      release_provider1 schedRecordFailure_def requestLog_def throw_def)
     (simp add: recordFailure_def findById_def update_rows_def decrementLoad_def Let_def provider1_def
       default_config_def)

text \<open>
  In \<open>executeWithRetry\<close> the release of a failed attempt follows \<open>recordFailure\<close>
  inside the \<open>catch\<close> block. When the store rejects \<open>recordFailure\<close> the provider is
  not released at all: the load stays incremented.
\<close>

lemma executeWithRetry_no_release:
  "fst (executeWithRetry default_config (fails_only RecordFailureCall) half 1000 always_fails 2 None world1)
     = Inl ''store error''
   \<and> journal (snd (executeWithRetry default_config (fails_only RecordFailureCall) half 1000
        always_fails 2 None world1)) = [Incremented 1]
   \<and> map current_load (providers (snd (executeWithRetry default_config (fails_only RecordFailureCall)
        half 1000 always_fails 2 None world1))) = [2]"
proof -
  have two: "(2::nat) = Suc (Suc 0)" by simp
  have acq: "acquireProvider default_config (fails_only RecordFailureCall) (half 1) None
      (if length ([]::nat list) > 0 then ExIds [] else ExNull) world1
     = (Inr provider1, world1\<lparr>providers := [provider1\<lparr>current_load := 2\<rparr>],
          journal := journal world1 @ [Incremented 1]\<rparr>)"
    by (simp add: acquire_provider1 fails_only_def world1_fields)
  show ?thesis
    unfolding executeWithRetry_def two
    by (simp only: retry_loop.simps bind_def acq prod.case sum.case)
       (simp add: bind_def try_catch_def always_fails_def schedRecordFailure_def store_call_def
         fails_only_def world1_fields provider1_def)
qed




text \<open>
  Without store faults the accounting of \<open>generateContent\<close> is balanced on every
  path: the run either acquires nothing, or it increments the load of one provider,
  decrements it once and records one outcome. \<open>quiet\<close> actions leave the journal and
  the local \<open>providerId\<close> alone; the part of the \<open>try\<close> after the acquisition
  \<open>settles\<close>: it either returns after one release and one recorded success, or throws
  before the release.
\<close>

definition quiet :: "'a action \<Rightarrow> bool" where
  "quiet m \<longleftrightarrow> (\<forall>w r w'. m w = (r, w') \<longrightarrow> journal w' = journal w \<and> providerId w' = providerId w)"

definition settles :: "nat \<Rightarrow> 'a action \<Rightarrow> bool" where
  "settles i m \<longleftrightarrow> (\<forall>w r w'. m w = (r, w') \<longrightarrow>
     (case r of
        Inr _ \<Rightarrow> journal w' = journal w @ [Decremented i, SuccessRecorded i]
      | Inl _ \<Rightarrow> journal w' = journal w \<and> providerId w' = providerId w))"

lemma quietD: "quiet m \<Longrightarrow> m w = (r, w') \<Longrightarrow> journal w' = journal w \<and> providerId w' = providerId w"
  by (simp add: quiet_def)

lemma settlesD:
  "settles i m \<Longrightarrow> m w = (r, w') \<Longrightarrow>
     (case r of Inr _ \<Rightarrow> journal w' = journal w @ [Decremented i, SuccessRecorded i]
      | Inl _ \<Rightarrow> journal w' = journal w \<and> providerId w' = providerId w)"
  by (simp add: settles_def)

lemma quiet_return: "quiet (return a)"
  by (simp add: quiet_def return_def)

lemma quiet_throw: "quiet (throw e)"
  by (simp add: quiet_def throw_def)

lemma quiet_pure: "quiet (\<lambda>w. (x, w))"
  by (simp add: quiet_def)

lemma quiet_bind:
  assumes "quiet m" and "\<And>a. quiet (f a)"
  shows "quiet (bind m f)"
  unfolding quiet_def
proof (intro allI impI)
  fix w r w'
  assume b: "bind m f w = (r, w')"
  obtain r1 w1 where m: "m w = (r1, w1)" by (cases "m w")
  note j1 = quietD [OF assms(1) m]
  show "journal w' = journal w \<and> providerId w' = providerId w"
  proof (cases r1)
    case (Inl e)
    with b m have "w' = w1" by (simp add: bind_def)
    with j1 show ?thesis by simp
  next
    case (Inr a)
    with b m have "f a w1 = (r, w')" by (simp add: bind_def)
    from quietD [OF assms(2) this] j1 show ?thesis by simp
  qed
qed

lemma settles_bind:
  assumes "quiet m" and "\<And>a. settles i (f a)"
  shows "settles i (bind m f)"
  unfolding settles_def
proof (intro allI impI)
  fix w r w'
  assume b: "bind m f w = (r, w')"
  obtain r1 w1 where m: "m w = (r1, w1)" by (cases "m w")
  note j1 = quietD [OF assms(1) m]
  show "case r of Inr _ \<Rightarrow> journal w' = journal w @ [Decremented i, SuccessRecorded i]
      | Inl _ \<Rightarrow> journal w' = journal w \<and> providerId w' = providerId w"
  proof (cases r1)
    case (Inl e)
    with b m have "w' = w1" "r = Inl e" by (simp_all add: bind_def)
    with j1 show ?thesis by simp
  next
    case (Inr a)
    with b m have "f a w1 = (r, w')" by (simp add: bind_def)
    from settlesD [OF assms(2) this] j1 show ?thesis by (simp split: sum.splits)
  qed
qed

lemma quiet_store_call:
  assumes "\<And>w. journal (f w) = journal w \<and> providerId (f w) = providerId w"
  shows "quiet (store_call faults c f)"
  using assms by (auto simp: quiet_def store_call_def split: if_splits)

lemma quiet_matchOrCreate: "quiet (matchOrCreate c faults lib n u p ms)"
  unfolding matchOrCreate_def
  by (intro quiet_bind quiet_return quiet_throw)
     (auto simp: quiet_def return_def throw_def createSession_def Let_def bind_def
       split: contents.splits prod.splits if_splits option.splits sum.splits)

lemma settles_tail:
  assumes "\<forall>c. \<not> faults c"
  shows "settles i (bind (releaseProvider faults i) (\<lambda>_.
           bind (schedRecordSuccess faults n i) (\<lambda>_.
           bind (requestLog faults t a b s e) (\<lambda>_. return resp))))"
  using assms
  by (simp add: settles_def bind_def releaseProvider_def schedRecordSuccess_def requestLog_def
      store_call_def return_def)

lemma settles_prod:
  "(\<And>a b c. settles i (f a b c)) \<Longrightarrow> settles i (case x of (a, b, c) \<Rightarrow> f a b c)"
  by (cases x) auto

lemma quiet_set_sessionId: "quiet (set_local (\<lambda>w. w\<lparr>sessionId := v\<rparr>))"
  by (simp add: quiet_def set_local_def)

lemma quiet_lastMessageText: "quiet (lastMessageText c)"
  by (cases c) (simp_all add: lastMessageText_def quiet_return quiet_throw)

lemma quiet_updateGeminiSession: "quiet (updateGeminiSession faults n i g)"
  unfolding updateGeminiSession_def by (rule quiet_store_call) simp

lemma quiet_recordMessage: "quiet (recordMessage c faults n i)"
  unfolding recordMessage_def by (rule quiet_store_call) simp

lemma quiet_gemini_session:
  "quiet (case g of
            Some g \<Rightarrow> if g \<noteq> [] then return g
                      else bind (\<lambda>w. (up, w)) (\<lambda>name.
                           bind (updateGeminiSession faults n i name) (\<lambda>_. return name))
          | None \<Rightarrow> bind (\<lambda>w. (up, w)) (\<lambda>name.
                    bind (updateGeminiSession faults n i name) (\<lambda>_. return name)))"
  by (cases g) (auto intro!: quiet_bind quiet_return quiet_pure quiet_updateGeminiSession)

definition after_acquire :: "env \<Rightarrow> request \<Rightarrow> provider \<Rightarrow> response action" where
  "after_acquire e req provider =
     bind (matchOrCreate (e_cfg e) (e_faults e) (e_hashes e) (e_now e) (r_userId req) (pid provider)
             (r_contents req)) (\<lambda>(session, isNew, matchType).
     bind (set_local (\<lambda>w. w\<lparr>sessionId := Some (sid session)\<rparr>)) (\<lambda>_.
     bind (lastMessageText (r_contents req)) (\<lambda>query.
     bind (case gemini_session_id session of
             Some g \<Rightarrow> if g \<noteq> [] then return g
                       else bind (\<lambda>w. (upstream_createSession e, w)) (\<lambda>name.
                            bind (updateGeminiSession (e_faults e) (e_now e) (sid session) name) (\<lambda>_.
                            return name))
           | None \<Rightarrow> bind (\<lambda>w. (upstream_createSession e, w)) (\<lambda>name.
                     bind (updateGeminiSession (e_faults e) (e_now e) (sid session) name) (\<lambda>_.
                     return name))) (\<lambda>geminiSessionId.
     bind (\<lambda>w. (upstream_sendMessage e, w)) (\<lambda>parsed.
     bind (return (if wantsImage e then fetchImage e else None)) (\<lambda>imageData.
     bind (return (buildResponse parsed imageData (r_model req) (r_includeThoughts req))) (\<lambda>response.
     bind (recordMessage (e_cfg e) (e_faults e) (e_now e) (sid session)) (\<lambda>_.
     bind (releaseProvider (e_faults e) (pid provider)) (\<lambda>_.
     bind (schedRecordSuccess (e_faults e) (e_now e) (pid provider)) (\<lambda>_.
     bind (requestLog (e_faults e) ''generateContent''
             (promptTokenCount (usageMetadata response))
             (candidatesTokenCount (usageMetadata response)) 200 None) (\<lambda>_.
     return response)))))))))))"

lemma try_after_acquire:
  "generateContent_try e req =
     bind (acquireProvider (e_cfg e) (e_faults e) (e_random e) None ExNull) (\<lambda>provider.
     bind (set_local (\<lambda>w. w\<lparr>providerId := Some (pid provider)\<rparr>)) (\<lambda>_.
     after_acquire e req provider))"
  by (simp add: generateContent_try_def after_acquire_def)

lemma settles_after_acquire:
  assumes "\<forall>c. \<not> e_faults e c"
  shows "settles (pid provider) (after_acquire e req provider)"
  unfolding after_acquire_def
  by (intro settles_tail [OF assms] settles_bind settles_prod quiet_matchOrCreate
      quiet_set_sessionId quiet_lastMessageText quiet_gemini_session quiet_pure quiet_return
      quiet_recordMessage)


lemma pick_mem: "pick x zs = Some p \<Longrightarrow> p \<in> fst ` set zs"
  by (induction x zs rule: pick.induct) (auto simp: Let_def split: if_splits)

lemma weightedRandom_mem: "weightedRandom r ps = Some p \<Longrightarrow> p \<in> set ps"
  by (auto simp: weightedRandom_def Let_def split: option.splits list.splits
      dest!: pick_mem dest: set_zip_leftD)

lemma getAvailableProviders_subset: "set (getAvailableProviders c g ps) \<subseteq> set ps"
  by (auto simp: getAvailableProviders_def dest: in_set_takeD)

lemma acquireProvider_result:
  assumes "acquireProvider c faults r g x w = (res, w')" and "\<not> faults IncrementLoadCall"
  shows "case res of
           Inl e \<Rightarrow> w' = w
         | Inr p \<Rightarrow> p \<in> set (providers w)
             \<and> w' = w\<lparr>providers := incrementLoad (pid p) (providers w),
                       journal := journal w @ [Incremented (pid p)]\<rparr>"
  using assms getAvailableProviders_subset [of c g "providers w"]
  by (auto simp: acquireProvider_def bind_def selectProvider_def store_call_def return_def Let_def
      split: if_splits option.splits sum.splits dest!: weightedRandom_mem)

lemma generateContent_balanced:
  assumes nf: "\<forall>c. \<not> e_faults e c" and ids: "\<forall>p \<in> set (providers w). pid p \<noteq> 0"
  shows "journal (snd (generateContent e req w)) = journal w
    \<or> (\<exists>i. journal (snd (generateContent e req w))
              = journal w @ [Incremented i, Decremented i, SuccessRecorded i]
          \<or> journal (snd (generateContent e req w))
              = journal w @ [Incremented i, Decremented i, FailureRecorded i])"
proof -
  let ?w0 = "w\<lparr>providerId := None, sessionId := None\<rparr>"
  obtain res wA where acq: "acquireProvider (e_cfg e) (e_faults e) (e_random e) None ExNull ?w0 = (res, wA)"
    by (cases "acquireProvider (e_cfg e) (e_faults e) (e_random e) None ExNull ?w0")
  from nf have nf': "\<not> e_faults e c" for c by simp
  note ar = acquireProvider_result [OF acq nf']
  show ?thesis
  proof (cases res)
    case (Inl err)
    with ar have "wA = ?w0" by simp
    with acq Inl have "journal (snd (generateContent e req w)) = journal w"
      by (simp add: generateContent_def try_catch_def try_after_acquire bind_def
          generateContent_catch_def requestLog_def store_call_def nf' throw_def)
    then show ?thesis by simp
  next
    case (Inr p)
    with ar have mem: "p \<in> set (providers w)"
      and wA: "wA = ?w0\<lparr>providers := incrementLoad (pid p) (providers ?w0),
                         journal := journal ?w0 @ [Incremented (pid p)]\<rparr>"
      by simp_all
    from mem ids have nz: "pid p \<noteq> 0" by simp
    let ?wB = "wA\<lparr>providerId := Some (pid p)\<rparr>"
    obtain r w' where aa: "after_acquire e req p ?wB = (r, w')"
      by (cases "after_acquire e req p ?wB")
    note st = settlesD [OF settles_after_acquire [OF nf] aa]
    have t: "generateContent_try e req ?w0 = (r, w')"
      using acq Inr aa by (simp add: try_after_acquire bind_def set_local_def)
    show ?thesis
    proof (cases r)
      case (Inr resp)
      with st wA have "journal w' = journal w @ [Incremented (pid p), Decremented (pid p), SuccessRecorded (pid p)]"
        by simp
      with t Inr show ?thesis
        by (auto simp: generateContent_def try_catch_def)
    next
      case (Inl err)
      with st wA have j: "journal w' = journal w @ [Incremented (pid p)]"
        and pi: "providerId w' = Some (pid p)"
        by simp_all
      from t Inl j pi nz
      have "journal (snd (generateContent e req w))
          = journal w @ [Incremented (pid p), Decremented (pid p), FailureRecorded (pid p)]"
        by (simp add: generateContent_def try_catch_def generateContent_catch_def bind_def
            releaseProvider_def schedRecordFailure_def requestLog_def store_call_def nf' throw_def)
      then show ?thesis by blast
    qed
  qed
qed

section \<open>The incremental stream parser (gemini-client.js)\<close>

text \<open>
  \<open>curlStreamRequest\<close> keeps its parser state in the closure of the promise; the
  record \<open>parser\<close> holds these variables. Strings are lists of UTF-16 code units, and
  the characters the parser tests for are named below. A \<open>data\<close> event carries a
  \<open>Buffer\<close>, a list of bytes; the handler decodes that buffer alone with
  \<open>data.toString()\<close>, appends the string to \<open>buffer\<close> and runs the \<open>while\<close> loop,
  which is \<open>scan\<close>: it consumes the buffer character by character with \<open>step\<close> and
  stops early at the \<open>break\<close> for the closing bracket, leaving the rest in the buffer.
  \<open>JSON.parse\<close> is a parameter that returns \<open>None\<close> where it throws. \<open>on_close\<close> is
  the \<open>close\<close> handler for exit code 0, and the result is the array \<open>chunks\<close> the
  promise resolves with; the per-chunk callback receives the texts of the same objects in
  the same order.

  \<open>toString\<close> is \<open>Buffer.prototype.toString\<close> with its default encoding, UTF-8: a
  well-formed sequence of one to four bytes becomes the code units of its character (a
  surrogate pair above U+FFFF), and every maximal ill-formed part, a sequence that the end
  of the buffer cuts short included, becomes U+FFFD.
\<close>

definition continuation :: "nat \<Rightarrow> bool" where
  "continuation b \<longleftrightarrow> 0x80 \<le> b \<and> b \<le> 0xBF"

definition second_of_three :: "nat \<Rightarrow> nat \<Rightarrow> bool" where
  \<comment> \<open>no overlong form after \<open>E0\<close>, no surrogate after \<open>ED\<close>\<close>
  "second_of_three b c =
     (if b = 0xE0 then 0xA0 \<le> c \<and> c \<le> 0xBF
      else if b = 0xED then 0x80 \<le> c \<and> c \<le> 0x9F
      else continuation c)"

definition second_of_four :: "nat \<Rightarrow> nat \<Rightarrow> bool" where
  \<comment> \<open>no overlong form after \<open>F0\<close>, nothing above U+10FFFF after \<open>F4\<close>\<close>
  "second_of_four b c =
     (if b = 0xF0 then 0x90 \<le> c \<and> c \<le> 0xBF
      else if b = 0xF4 then 0x80 \<le> c \<and> c \<le> 0x8F
      else continuation c)"

definition code_units :: "nat \<Rightarrow> ustring" where
  "code_units cp =
     (if cp < 0x10000 then [cp]
      else [0xD800 + (cp - 0x10000) div 0x400, 0xDC00 + (cp - 0x10000) mod 0x400])"

fun toString :: "bytes \<Rightarrow> ustring" where
  "toString [] = []"
| "toString (b # bs) =
     (if b < 0x80 then b # toString bs
      else if 0xC2 \<le> b \<and> b \<le> 0xDF then
        (case bs of
           [] \<Rightarrow> [0xFFFD]
         | c # bs1 \<Rightarrow>
             if continuation c
             then code_units ((b - 0xC0) * 0x40 + (c - 0x80)) @ toString bs1
             else 0xFFFD # toString bs)
      else if 0xE0 \<le> b \<and> b \<le> 0xEF then
        (case bs of
           [] \<Rightarrow> [0xFFFD]
         | c # bs1 \<Rightarrow>
             if second_of_three b c then
               (case bs1 of
                  [] \<Rightarrow> [0xFFFD]
                | d # bs2 \<Rightarrow>
                    if continuation d
                    then code_units ((b - 0xE0) * 0x1000 + (c - 0x80) * 0x40 + (d - 0x80))
                         @ toString bs2
                    else 0xFFFD # toString bs1)
             else 0xFFFD # toString bs)
      else if 0xF0 \<le> b \<and> b \<le> 0xF4 then
        (case bs of
           [] \<Rightarrow> [0xFFFD]
         | c # bs1 \<Rightarrow>
             if second_of_four b c then
               (case bs1 of
                  [] \<Rightarrow> [0xFFFD]
                | d # bs2 \<Rightarrow>
                    if continuation d then
                      (case bs2 of
                         [] \<Rightarrow> [0xFFFD]
                       | e # bs3 \<Rightarrow>
                           if continuation e
                           then code_units ((b - 0xF0) * 0x40000 + (c - 0x80) * 0x1000
                                  + (d - 0x80) * 0x40 + (e - 0x80)) @ toString bs3
                           else 0xFFFD # toString bs2)
                    else 0xFFFD # toString bs1)
             else 0xFFFD # toString bs)
      else 0xFFFD # toString bs)"

abbreviation dquote :: nat where "dquote \<equiv> 0x22"
abbreviation backslash :: nat where "backslash \<equiv> 0x5C"
abbreviation lbrace :: nat where "lbrace \<equiv> 0x7B"
abbreviation rbrace :: nat where "rbrace \<equiv> 0x7D"
abbreviation lbracket :: nat where "lbracket \<equiv> 0x5B"
abbreviation rbracket :: nat where "rbracket \<equiv> 0x5D"
abbreviation comma :: nat where "comma \<equiv> 0x2C"
abbreviation cr :: nat where "cr \<equiv> 0x0D"
abbreviation lf :: nat where "lf \<equiv> 0x0A"
abbreviation space :: nat where "space \<equiv> 0x20"

record 'j parser =
  buffer :: ustring
  chunks :: "'j list"
  inArray :: bool
  braceDepth :: int
  currentObject :: ustring
  inString :: bool
  escapeNext :: bool

definition init_parser :: "'j parser" where
  "init_parser = \<lparr> buffer = [], chunks = [], inArray = False, braceDepth = 0,
     currentObject = [], inString = False, escapeNext = False \<rparr>"

definition accumulate :: "nat \<Rightarrow> 'j parser \<Rightarrow> 'j parser" where
  "accumulate c st = st\<lparr>currentObject := currentObject st @ [c]\<rparr>"

definition complete_object :: "(ustring \<Rightarrow> 'j option) \<Rightarrow> 'j parser \<Rightarrow> 'j parser" where
  "complete_object json_parse st =
     (case json_parse (currentObject st) of
        Some parsed \<Rightarrow> st\<lparr>chunks := chunks st @ [parsed], currentObject := []\<rparr>
      | None \<Rightarrow> st\<lparr>currentObject := []\<rparr>)"

definition step :: "(ustring \<Rightarrow> 'j option) \<Rightarrow> nat \<Rightarrow> 'j parser \<Rightarrow> bool \<times> 'j parser" where
  "step json_parse c st =
     (if escapeNext st then
        (False, (if braceDepth st > 0 then accumulate c st else st)\<lparr>escapeNext := False\<rparr>)
      else if c = backslash \<and> inString st then
        (False, (if braceDepth st > 0 then accumulate c st else st)\<lparr>escapeNext := True\<rparr>)
      else if c = dquote \<and> braceDepth st > 0 then
        (False, (accumulate c st)\<lparr>inString := \<not> inString st\<rparr>)
      else if inString st then (False, accumulate c st)
      else if c = lbracket \<and> \<not> inArray st \<and> braceDepth st = 0 then
        (False, st\<lparr>inArray := True\<rparr>)
      else if c = rbracket \<and> inArray st \<and> braceDepth st = 0 then (True, st)
      else if braceDepth st = 0 \<and> (c = comma \<or> c = cr \<or> c = lf \<or> c = space) then
        (False, st)
      else if c = lbrace then
        (False, (accumulate c st)\<lparr>braceDepth := braceDepth st + 1\<rparr>)
      else if c = rbrace then
        (let st' = (accumulate c st)\<lparr>braceDepth := braceDepth st - 1\<rparr>
         in if braceDepth st' = 0 \<and> length (currentObject st') > 0
            then (False, complete_object json_parse st') else (False, st'))
      else if braceDepth st > 0 then (False, accumulate c st)
      else (False, st))"

fun scan :: "(ustring \<Rightarrow> 'j option) \<Rightarrow> ustring \<Rightarrow> 'j parser \<Rightarrow> 'j parser" where
  "scan json_parse [] st = st\<lparr>buffer := []\<rparr>"
| "scan json_parse (c # cs) st =
     (case step json_parse c st of
        (True, st') \<Rightarrow> st'\<lparr>buffer := cs\<rparr>
      | (False, st') \<Rightarrow> scan json_parse cs st')"

definition on_data :: "(ustring \<Rightarrow> 'j option) \<Rightarrow> bytes \<Rightarrow> 'j parser \<Rightarrow> 'j parser" where
  \<comment> \<open>\<open>buf\<close> is the \<open>Buffer\<close> that the handler receives as \<open>data\<close>\<close>
  "on_data json_parse buf st =
     (let rawData = toString buf
      in scan json_parse (buffer st @ rawData) st)"

definition js_space :: "nat \<Rightarrow> bool" where
  "js_space c \<longleftrightarrow> c \<in> {0x09, 0x0A, 0x0B, 0x0C, 0x0D, 0x20, 0xA0, 0x1680, 0x2028, 0x2029,
      0x202F, 0x205F, 0x3000, 0xFEFF} \<or> (0x2000 \<le> c \<and> c \<le> 0x200A)"

definition on_close :: "(ustring \<Rightarrow> 'j option) \<Rightarrow> 'j parser \<Rightarrow> 'j list" where
  "on_close json_parse st =
     (if filter (\<lambda>c. \<not> js_space c) (currentObject st) \<noteq> []
      then (case json_parse (currentObject st) of
              Some parsed \<Rightarrow> chunks st @ [parsed]
            | None \<Rightarrow> chunks st)
      else chunks st)"

definition curlStreamRequest :: "(ustring \<Rightarrow> 'j option) \<Rightarrow> bytes list \<Rightarrow> 'j list" where
  "curlStreamRequest json_parse datas =
     on_close json_parse (foldl (\<lambda>st buf. on_data json_parse buf st) init_parser datas)"

text \<open>
  The upstream body as the specification describes it: an opening bracket, objects
  separated by any mix of commas, carriage returns, newlines and spaces, and a closing
  bracket. \<open>json_object\<close> holds of every text of a JSON object, and of more: a
  brace, then a body in which strings are closed, every backslash inside a string takes
  the next character with it, and braces outside strings are balanced, then a brace.
\<close>

fun str_body :: "ustring \<Rightarrow> bool" where
  "str_body [] = True"
| "str_body [c] = (c \<noteq> dquote \<and> c \<noteq> backslash)"
| "str_body (c # d # s) = (if c = backslash then str_body s else c \<noteq> dquote \<and> str_body (d # s))"

inductive bal :: "ustring \<Rightarrow> bool" where
  bal_nil: "bal []"
| bal_char: "c \<noteq> lbrace \<Longrightarrow> c \<noteq> rbrace \<Longrightarrow> c \<noteq> dquote \<Longrightarrow> bal xs \<Longrightarrow> bal (c # xs)"
| bal_str: "str_body s \<Longrightarrow> bal xs \<Longrightarrow> bal (dquote # s @ dquote # xs)"
| bal_obj: "bal ys \<Longrightarrow> bal xs \<Longrightarrow> bal (lbrace # ys @ rbrace # xs)"

definition json_object :: "ustring \<Rightarrow> bool" where
  "json_object ob \<longleftrightarrow> (\<exists>ys. ob = lbrace # ys @ [rbrace] \<and> bal ys)"

definition separator :: "ustring \<Rightarrow> bool" where
  "separator s \<longleftrightarrow> set s \<subseteq> {comma, cr, lf, space}"

fun frame :: "(ustring \<times> ustring) list \<Rightarrow> ustring" where
  "frame [] = []"
| "frame ((s, ob) # items) = s @ ob @ frame items"

text \<open>
  The state after a sequence of \<open>data\<close> events is the state after scanning the
  concatenation of the decoded strings, as long as the loop never stopped before the end
  of its input.
\<close>

lemma step_buffer:
  "step jp c (st\<lparr>buffer := b\<rparr>) = (fst (step jp c st), (snd (step jp c st))\<lparr>buffer := b\<rparr>)"
  by (simp add: step_def accumulate_def complete_object_def Let_def split: option.split)

lemma scan_buffer: "scan jp cs (st\<lparr>buffer := b\<rparr>) = scan jp cs st"
proof (induction cs arbitrary: st)
  case Nil
  show ?case by simp
next
  case (Cons c cs)
  show ?case
    by (cases "step jp c st") (auto simp: step_buffer Cons.IH split: bool.split)
qed

lemma scan_append:
  "buffer (scan jp (xs @ ys) st) = [] \<Longrightarrow>
     buffer (scan jp xs st) = [] \<and> scan jp ys (scan jp xs st) = scan jp (xs @ ys) st"
proof (induction xs arbitrary: st)
  case Nil
  then show ?case by (simp add: scan_buffer)
next
  case (Cons c xs)
  obtain b st' where s: "step jp c st = (b, st')" by (cases "step jp c st")
  show ?case
  proof (cases b)
    case True
    with Cons.prems s have "xs = []" "ys = []" by auto
    with True s show ?thesis by simp
  next
    case False
    with Cons s show ?thesis by simp
  qed
qed

lemma feed_chunks:
  "buffer st = [] \<Longrightarrow> buffer (scan jp (concat (map toString ds)) st) = [] \<Longrightarrow>
     foldl (\<lambda>st buf. on_data jp buf st) st ds = scan jp (concat (map toString ds)) st"
proof (induction ds arbitrary: st)
  case Nil
  then show ?case by simp
next
  case (Cons d ds)
  let ?rest = "concat (map toString ds)"
  from Cons.prems(2) have "buffer (scan jp (toString d @ ?rest) st) = []" by simp
  from scan_append [OF this]
  have b: "buffer (scan jp (toString d) st) = []"
    and e: "scan jp ?rest (scan jp (toString d) st) = scan jp (toString d @ ?rest) st" by auto
  from Cons.prems(2) e have "buffer (scan jp ?rest (scan jp (toString d) st)) = []" by simp
  from Cons.IH [OF b this] e Cons.prems(1) show ?case
    by (simp add: on_data_def Let_def)
qed


lemma reset_flags:
  "\<not> escapeNext st \<Longrightarrow> st\<lparr>escapeNext := False\<rparr> = st"
  "\<not> inString st \<Longrightarrow> st\<lparr>inString := False\<rparr> = st"
  "braceDepth st = 0 \<Longrightarrow> st\<lparr>braceDepth := 0\<rparr> = st"
  "currentObject st = [] \<Longrightarrow> st\<lparr>currentObject := []\<rparr> = st"
  by simp_all

lemma scan_str:
  "str_body s \<Longrightarrow> braceDepth st > 0 \<Longrightarrow> inString st \<Longrightarrow> \<not> escapeNext st \<Longrightarrow>
     scan jp (s @ rest) st = scan jp rest (st\<lparr>currentObject := currentObject st @ s\<rparr>)"
proof (induction s arbitrary: st rule: str_body.induct)
  case 1
  then show ?case by simp
next
  case (2 c)
  then show ?case by (simp add: step_def accumulate_def)
next
  case (3 c d s)
  show ?case
  proof (cases "c = backslash")
    case True
    let ?st = "st\<lparr>currentObject := currentObject st @ [c, d]\<rparr>"
    from True "3.prems" have "str_body s" by simp
    from "3.IH"(1) [OF True this, of ?st] "3.prems"
    have "scan jp (s @ rest) ?st = scan jp rest (?st\<lparr>currentObject := currentObject ?st @ s\<rparr>)"
      by simp
    with True "3.prems" show ?thesis
      by (simp add: step_def accumulate_def reset_flags)
  next
    case False
    let ?st = "st\<lparr>currentObject := currentObject st @ [c]\<rparr>"
    from False "3.prems" have "str_body (d # s)" and nq: "c \<noteq> dquote" by simp_all
    from "3.IH"(2) [OF False this(1), of ?st] "3.prems"
    have "scan jp ((d # s) @ rest) ?st = scan jp rest (?st\<lparr>currentObject := currentObject ?st @ d # s\<rparr>)"
      by simp
    with False nq "3.prems" show ?thesis
      by (simp add: step_def accumulate_def)
  qed
qed

lemma scan_bal:
  "bal ys \<Longrightarrow> braceDepth st > 0 \<Longrightarrow> \<not> inString st \<Longrightarrow> \<not> escapeNext st \<Longrightarrow>
     scan jp (ys @ rest) st = scan jp rest (st\<lparr>currentObject := currentObject st @ ys\<rparr>)"
proof (induction arbitrary: st rest rule: bal.induct)
  case bal_nil
  then show ?case by simp
next
  case (bal_char c xs)
  let ?st = "st\<lparr>currentObject := currentObject st @ [c]\<rparr>"
  from bal_char.IH [of ?st rest] bal_char.prems
  have "scan jp (xs @ rest) ?st = scan jp rest (?st\<lparr>currentObject := currentObject ?st @ xs\<rparr>)"
    by simp
  with bal_char.hyps bal_char.prems show ?case
    by (simp add: step_def accumulate_def)
next
  case (bal_str s xs)
  let ?st1 = "st\<lparr>currentObject := currentObject st @ [dquote], inString := True\<rparr>"
  let ?st2 = "st\<lparr>currentObject := currentObject st @ dquote # s @ [dquote]\<rparr>"
  have a: "scan jp ((dquote # s @ dquote # xs) @ rest) st = scan jp (s @ dquote # xs @ rest) ?st1"
    using bal_str.prems by (simp add: step_def accumulate_def)
  have b: "scan jp (s @ dquote # xs @ rest) ?st1
      = scan jp (dquote # xs @ rest) (?st1\<lparr>currentObject := currentObject ?st1 @ s\<rparr>)"
    using bal_str.prems by (intro scan_str [OF bal_str.hyps(1)]) simp_all
  have c: "scan jp (dquote # xs @ rest) (?st1\<lparr>currentObject := currentObject ?st1 @ s\<rparr>)
      = scan jp (xs @ rest) ?st2"
    using bal_str.prems by (simp add: step_def accumulate_def reset_flags)
  have d: "scan jp (xs @ rest) ?st2 = scan jp rest (?st2\<lparr>currentObject := currentObject ?st2 @ xs\<rparr>)"
    using bal_str.prems by (intro bal_str.IH) simp_all
  show ?case
    unfolding a b c d by simp
next
  case (bal_obj ys xs)
  let ?st1 = "st\<lparr>currentObject := currentObject st @ [lbrace], braceDepth := braceDepth st + 1\<rparr>"
  let ?st2 = "st\<lparr>currentObject := currentObject st @ lbrace # ys @ [rbrace]\<rparr>"
  have a: "scan jp ((lbrace # ys @ rbrace # xs) @ rest) st = scan jp (ys @ rbrace # xs @ rest) ?st1"
    using bal_obj.prems by (simp add: step_def accumulate_def)
  have b: "scan jp (ys @ rbrace # xs @ rest) ?st1
      = scan jp (rbrace # xs @ rest) (?st1\<lparr>currentObject := currentObject ?st1 @ ys\<rparr>)"
    using bal_obj.prems by (intro bal_obj.IH(1)) simp_all
  have c: "scan jp (rbrace # xs @ rest) (?st1\<lparr>currentObject := currentObject ?st1 @ ys\<rparr>)
      = scan jp (xs @ rest) ?st2"
    using bal_obj.prems by (simp add: step_def accumulate_def Let_def)
  have d: "scan jp (xs @ rest) ?st2 = scan jp rest (?st2\<lparr>currentObject := currentObject ?st2 @ xs\<rparr>)"
    using bal_obj.prems by (intro bal_obj.IH(2)) simp_all
  show ?case
    unfolding a b c d by simp
qed

definition idle :: "'j parser \<Rightarrow> bool" where
  "idle st \<longleftrightarrow> inArray st \<and> braceDepth st = 0 \<and> currentObject st = []
     \<and> \<not> inString st \<and> \<not> escapeNext st"

definition emit :: "(ustring \<Rightarrow> 'j option) \<Rightarrow> ustring list \<Rightarrow> 'j parser \<Rightarrow> 'j parser" where
  "emit jp obs st = st\<lparr>chunks := chunks st @ List.map_filter jp obs\<rparr>"

lemma idle_emit: "idle st \<Longrightarrow> idle (emit jp obs st)"
  by (simp add: idle_def emit_def)

lemma scan_separator:
  "separator s \<Longrightarrow> idle st \<Longrightarrow> scan jp (s @ rest) st = scan jp rest st"
proof (induction s)
  case Nil
  show ?case by simp
next
  case (Cons c s)
  then have "separator s" and "c = comma \<or> c = cr \<or> c = lf \<or> c = space"
    by (auto simp: separator_def)
  with Cons show ?case
    by (auto simp: step_def idle_def)
qed

lemma scan_object:
  assumes "json_object ob" and "idle st"
  shows "scan jp (ob @ rest) st = scan jp rest (emit jp [ob] st)"
proof -
  from assms(1) obtain ys where ob: "ob = lbrace # ys @ [rbrace]" and ys: "bal ys"
    by (auto simp: json_object_def)
  let ?st1 = "st\<lparr>currentObject := [lbrace], braceDepth := 1\<rparr>"
  have a: "scan jp (ob @ rest) st = scan jp (ys @ rbrace # rest) ?st1"
    using assms(2) by (simp add: ob step_def accumulate_def idle_def)
  have b: "scan jp (ys @ rbrace # rest) ?st1
      = scan jp (rbrace # rest) (?st1\<lparr>currentObject := currentObject ?st1 @ ys\<rparr>)"
    using assms(2) by (intro scan_bal [OF ys]) (simp_all add: idle_def)
  have c: "scan jp (rbrace # rest) (?st1\<lparr>currentObject := currentObject ?st1 @ ys\<rparr>)
      = scan jp rest (emit jp [ob] st)"
    using assms(2)
    by (simp add: step_def accumulate_def Let_def complete_object_def emit_def ob idle_def
        List.map_filter_simps reset_flags split: option.split)
  show ?thesis
    unfolding a b c ..
qed

lemma emit_emit: "emit jp bs (emit jp as st) = emit jp (as @ bs) st"
  by (simp add: emit_def List.map_filter_def)

lemma scan_frame:
  assumes "\<forall>(s, ob) \<in> set items. separator s \<and> json_object ob" and "idle st"
  shows "scan jp (frame items @ rest) st = scan jp rest (emit jp (map snd items) st)"
  using assms
proof (induction items arbitrary: st)
  case Nil
  then show ?case by (simp add: emit_def List.map_filter_simps)
next
  case (Cons item items)
  obtain s ob where item: "item = (s, ob)" by (cases item)
  with Cons.prems have sep: "separator s" and ob: "json_object ob"
    and rest: "\<forall>(s, ob) \<in> set items. separator s \<and> json_object ob"
    by auto
  have "scan jp (frame (item # items) @ rest) st = scan jp (ob @ frame items @ rest) st"
    using scan_separator [OF sep Cons.prems(2)] by (simp add: item)
  also have "\<dots> = scan jp (frame items @ rest) (emit jp [ob] st)"
    by (rule scan_object [OF ob Cons.prems(2)])
  also have "\<dots> = scan jp rest (emit jp (map snd items) (emit jp [ob] st))"
    by (rule Cons.IH [OF rest idle_emit [OF Cons.prems(2)]])
  finally show ?case
    by (simp add: emit_emit item)
qed

lemma map_filter_all_Some:
  "\<forall>x \<in> set xs. f x \<noteq> None \<Longrightarrow> List.map_filter f xs = map (\<lambda>x. the (f x)) xs"
  by (induction xs) (auto simp: List.map_filter_simps)

text \<open>
  When the decoded strings of the \<open>data\<close> events concatenate to the bracketed text, the
  parser emits what \<open>JSON.parse\<close> makes of each object text, in order, whatever the
  separators and the chunk boundaries are; a closing brace or a bracket inside a string
  ends nothing.
\<close>

lemma stream_parser_decoded_chunks:
  assumes "\<forall>(s, ob) \<in> set items. separator s \<and> json_object ob"
    and "separator s_end"
    and "concat (map toString datas) = lbracket # frame items @ s_end @ [rbracket]"
  shows "curlStreamRequest jp datas = List.map_filter jp (map snd items)
    \<and> ((\<forall>ob \<in> set (map snd items). jp ob \<noteq> None) \<longrightarrow>
         curlStreamRequest jp datas = map (\<lambda>ob. the (jp ob)) (map snd items))"
proof -
  let ?st0 = "(init_parser :: 'a parser)\<lparr>inArray := True\<rparr>"
  let ?text = "concat (map toString datas)"
  have idle0: "idle ?st0" by (simp add: idle_def init_parser_def)
  let ?st1 = "emit jp (map snd items) ?st0"
  have idle1: "idle ?st1" by (rule idle_emit [OF idle0])
  have "scan jp ?text init_parser = scan jp (frame items @ s_end @ [rbracket]) ?st0"
    by (simp add: assms(3) step_def init_parser_def)
  also have "\<dots> = scan jp (s_end @ [rbracket]) ?st1"
    by (rule scan_frame [OF assms(1) idle0])
  also have "\<dots> = scan jp [rbracket] ?st1"
    by (rule scan_separator [OF assms(2) idle1])
  also have "\<dots> = ?st1\<lparr>buffer := []\<rparr>"
    using idle1 by (simp add: step_def idle_def)
  finally have sc: "scan jp ?text init_parser = ?st1\<lparr>buffer := []\<rparr>" .
  have fd: "foldl (\<lambda>st buf. on_data jp buf st) init_parser datas = scan jp ?text init_parser"
    by (rule feed_chunks) (simp add: init_parser_def, simp add: sc)
  have "curlStreamRequest jp datas = List.map_filter jp (map snd items)"
    unfolding curlStreamRequest_def fd sc
    by (simp add: on_close_def emit_def init_parser_def)
  then show ?thesis
    using map_filter_all_Some [of "map snd items" jp] by simp
qed

text \<open>
  Bytes below \<open>0x80\<close> decode to themselves one by one, so a body of such bytes is
  parsed as expected under every partition into chunks.
\<close>

lemma toString_ascii: "\<forall>b \<in> set bs. b < 0x80 \<Longrightarrow> toString bs = bs"
  by (induction bs) simp_all

lemma toString_examples:
  "toString [0xC3, 0xA9] = [0xE9]"
  "toString [0xE2, 0x82, 0xAC] = [0x20AC]"
  "toString [0xF0, 0x9F, 0x98, 0x80] = [0xD83D, 0xDE00]"
  "toString [0xC3] = [0xFFFD]"
  "toString [0xA9] = [0xFFFD]"
  "toString [0xE2, 0x82] = [0xFFFD]"
  by (simp_all add: continuation_def second_of_three_def second_of_four_def code_units_def)

lemma stream_parser_ascii:
  assumes "\<forall>(s, ob) \<in> set items. separator s \<and> json_object ob"
    and "separator s_end"
    and "concat datas = lbracket # frame items @ s_end @ [rbracket]"
    and "\<forall>b \<in> set (concat datas). b < 0x80"
  shows "curlStreamRequest jp datas = List.map_filter jp (map snd items)"
proof -
  from assms(4) have "map toString datas = datas"
    by (intro map_idI toString_ascii) auto
  with assms(3) have "concat (map toString datas) = lbracket # frame items @ s_end @ [rbracket]"
    by simp
  from stream_parser_decoded_chunks [OF assms(1,2) this, where jp = jp] show ?thesis by simp
qed

text \<open>
  The scenario of the specification: the body
  \<^verbatim>\<open>[{"a":"x},{"} ,  \r\n {"b":2}]\<close> delivered one byte at a time.
\<close>

definition split_chunks :: "bytes \<Rightarrow> bytes list" where
  "split_chunks body = map (\<lambda>c. [c]) body"

lemma concat_split_chunks: "concat (split_chunks body) = body"
  by (induction body) (simp_all add: split_chunks_def)

definition scenario_ob1 :: ustring where
  "scenario_ob1 = [0x7B, 0x22, 0x61, 0x22, 0x3A, 0x22, 0x78, 0x7D, 0x2C, 0x7B, 0x22, 0x7D]"

definition scenario_ob2 :: ustring where
  "scenario_ob2 = [0x7B, 0x22, 0x62, 0x22, 0x3A, 0x32, 0x7D]"

definition scenario_text :: bytes where
  "scenario_text = [0x5B] @ scenario_ob1 @ [0x20, 0x2C, 0x20, 0x20, 0x0D, 0x0A, 0x20]
     @ scenario_ob2 @ [0x5D]"

lemma scenario_objects: "json_object scenario_ob1" "json_object scenario_ob2"
proof -
  have "bal (dquote # [0x61] @ dquote # (0x3A # (dquote # [0x78, 0x7D, 0x2C, 0x7B] @ dquote # [])))"
    by (rule bal_str, simp, rule bal_char, simp, simp, simp, rule bal_str, simp, rule bal_nil)
  then show "json_object scenario_ob1"
    unfolding json_object_def scenario_ob1_def
    by (intro exI [of _ "dquote # [0x61] @ dquote # (0x3A # (dquote # [0x78, 0x7D, 0x2C, 0x7B] @ dquote # []))"]) simp
  have "bal (dquote # [0x62] @ dquote # (0x3A # 0x32 # []))"
    by (rule bal_str, simp, rule bal_char, simp, simp, simp, rule bal_char, simp, simp, simp,
        rule bal_nil)
  then show "json_object scenario_ob2"
    unfolding json_object_def scenario_ob2_def
    by (intro exI [of _ "dquote # [0x62] @ dquote # (0x3A # 0x32 # [])"]) simp
qed

lemma stream_parser_scenario:
  "curlStreamRequest Some (split_chunks scenario_text) = [scenario_ob1, scenario_ob2]"
proof -
  let ?items = "[([], scenario_ob1), ([0x20, 0x2C, 0x20, 0x20, 0x0D, 0x0A, 0x20], scenario_ob2)]"
  have h1: "\<forall>(s, ob) \<in> set ?items. separator s \<and> json_object ob"
    by (simp add: separator_def scenario_objects)
  have h2: "separator []" by (simp add: separator_def)
  have h3: "concat (split_chunks scenario_text) = lbracket # frame ?items @ [] @ [rbracket]"
    by (simp add: concat_split_chunks scenario_text_def)
  have h4: "\<forall>b \<in> set (concat (split_chunks scenario_text)). b < 0x80"
    by (simp add: concat_split_chunks scenario_text_def scenario_ob1_def scenario_ob2_def)
  from stream_parser_ascii [OF h1 h2 h3 h4, of Some]
  show ?thesis by (simp add: List.map_filter_simps)
qed

text \<open>
  A body with a character outside ASCII: \<^verbatim>\<open>[{"a":"\<close>, the two bytes \<open>C3 A9\<close> of
  U+00E9, \<^verbatim>\<open>"}]\<close>. \<open>accent_object\<close> is the object of that body, and
  \<open>replaced_object\<close> is the same text with two U+FFFD in place of U+00E9.
\<close>

definition accent_bytes :: bytes where
  "accent_bytes = [0x5B, 0x7B, 0x22, 0x61, 0x22, 0x3A, 0x22, 0xC3, 0xA9, 0x22, 0x7D, 0x5D]"

definition accent_object :: ustring where
  "accent_object = [0x7B, 0x22, 0x61, 0x22, 0x3A, 0x22, 0xE9, 0x22, 0x7D]"

definition replaced_object :: ustring where
  "replaced_object = [0x7B, 0x22, 0x61, 0x22, 0x3A, 0x22, 0xFFFD, 0xFFFD, 0x22, 0x7D]"

lemma accent_objects: "json_object accent_object" "json_object replaced_object"
proof -
  have "bal (dquote # [0x61] @ dquote # (0x3A # (dquote # [0xE9] @ dquote # [])))"
    by (rule bal_str, simp, rule bal_char, simp, simp, simp, rule bal_str, simp, rule bal_nil)
  then show "json_object accent_object"
    unfolding json_object_def accent_object_def
    by (intro exI [of _ "dquote # [0x61] @ dquote # (0x3A # (dquote # [0xE9] @ dquote # []))"]) simp
  have "bal (dquote # [0x61] @ dquote # (0x3A # (dquote # [0xFFFD, 0xFFFD] @ dquote # [])))"
    by (rule bal_str, simp, rule bal_char, simp, simp, simp, rule bal_str, simp, rule bal_nil)
  then show "json_object replaced_object"
    unfolding json_object_def replaced_object_def
    by (intro exI [of _ "dquote # [0x61] @ dquote # (0x3A # (dquote # [0xFFFD, 0xFFFD] @ dquote # []))"]) simp
qed

lemma accent_decoded:
  "toString accent_bytes = [lbracket] @ accent_object @ [rbracket]"
  "concat (map toString (split_chunks accent_bytes)) = [lbracket] @ replaced_object @ [rbracket]"
  by (simp_all add: accent_bytes_def accent_object_def replaced_object_def split_chunks_def
      continuation_def code_units_def)

text \<open>
  Claim C4. The claim fails in the code for a chunk boundary inside a character of more
  than one byte. The body \<open>accent_bytes\<close> is the bracketed UTF-8 text of one JSON
  object, \<open>accent_object\<close>. Delivered in one chunk, the parser emits that object.
  Delivered one byte at a time, a partition of the same body, the parser emits
  \<open>replaced_object\<close> instead: \<open>C3\<close> and \<open>A9\<close> are decoded apart, each to U+FFFD.
\<close>

theorem stream_parser_splits_characters:
  "concat (split_chunks accent_bytes) = accent_bytes
   \<and> toString accent_bytes = [lbracket] @ accent_object @ [rbracket]
   \<and> json_object accent_object
   \<and> curlStreamRequest jp [accent_bytes] = List.map_filter jp [accent_object]
   \<and> curlStreamRequest jp (split_chunks accent_bytes) = List.map_filter jp [replaced_object]
   \<and> curlStreamRequest Some [accent_bytes] = [accent_object]
   \<and> curlStreamRequest Some (split_chunks accent_bytes) = [replaced_object]
   \<and> replaced_object \<noteq> accent_object"
proof -
  have sep: "separator []" by (simp add: separator_def)
  have one: "curlStreamRequest jp' [accent_bytes] = List.map_filter jp' [accent_object]" for jp' :: "ustring \<Rightarrow> 'b option"
  proof -
    have "\<forall>(s, ob) \<in> set [([], accent_object)]. separator s \<and> json_object ob"
      by (simp add: sep accent_objects)
    moreover have "concat (map toString [accent_bytes])
        = lbracket # frame [([], accent_object)] @ [] @ [rbracket]"
      by (simp add: accent_decoded)
    ultimately show ?thesis
      using stream_parser_decoded_chunks [OF _ sep, of "[([], accent_object)]" "[accent_bytes]" jp']
      by simp
  qed
  have each: "curlStreamRequest jp' (split_chunks accent_bytes) = List.map_filter jp' [replaced_object]"
    for jp' :: "ustring \<Rightarrow> 'b option"
  proof -
    have "\<forall>(s, ob) \<in> set [([], replaced_object)]. separator s \<and> json_object ob"
      by (simp add: sep accent_objects)
    moreover have "concat (map toString (split_chunks accent_bytes))
        = lbracket # frame [([], replaced_object)] @ [] @ [rbracket]"
      by (simp add: accent_decoded)
    ultimately show ?thesis
      using stream_parser_decoded_chunks [OF _ sep, of "[([], replaced_object)]"
          "split_chunks accent_bytes" jp']
      by simp
  qed
  have "replaced_object \<noteq> accent_object"
    by (simp add: replaced_object_def accent_object_def)
  with one [of jp] each [of jp] one [of Some] each [of Some] show ?thesis
    by (simp add: concat_split_chunks accent_decoded(1) accent_objects(1) List.map_filter_simps)
qed

end
